theory Spec2Isabelle
  imports Main "HOL-Library.Log_Nat"
begin

section \<open>JavaScript strings and numbers\<close>

text \<open>
  The module \<^verbatim>\<open>src/helpers.ts\<close> works on JavaScript strings, sequences of UTF-16 code
  units. They are modelled as Isabelle strings, whose characters are the code units 0 to
  255 (ISO 8859-1): the model covers the strings of these code units. Numbers are the
  non-negative integers the code handles (version components, line and column numbers),
  as \<open>nat\<close>.
\<close>

text \<open>
  \<^verbatim>\<open>String.prototype.toUpperCase\<close> on the letters \<^verbatim>\<open>a\<close> to \<^verbatim>\<open>z\<close>. On the code units 128
  to 255 the result in JavaScript is outside ASCII, or the two letters \<^verbatim>\<open>SS\<close> for the
  sharp s; the module only compares the result with the words \<^verbatim>\<open>TRUE\<close> and \<^verbatim>\<open>FALSE\<close>, and
  these comparisons have the same value with the function below.
\<close>

definition toUpperChar :: "char \<Rightarrow> char" where
  "toUpperChar c =
     (case map_of (zip ''abcdefghijklmnopqrstuvwxyz'' ''ABCDEFGHIJKLMNOPQRSTUVWXYZ'') c of
        Some u \<Rightarrow> u
      | None \<Rightarrow> c)"

definition toUpperCase :: "string \<Rightarrow> string" where
  "toUpperCase s = map toUpperChar s"

text \<open>
  The white space and the line terminators of ECMAScript among the code units below 256:
  tab, line feed, vertical tab, form feed, carriage return, space and the no-break space
  U+00A0. They are what \<^verbatim>\<open>trim\<close> strips and what \<^verbatim>\<open>\s\<close> matches in a regular
  expression.
\<close>

definition isWhiteSpace :: "char \<Rightarrow> bool" where
  "isWhiteSpace c =
     (c \<in> set [CHR 0x09, CHR 0x0A, CHR 0x0B, CHR 0x0C, CHR 0x0D, CHR 0x20, CHR 0xA0])"

text \<open>\<^verbatim>\<open>String.prototype.trim\<close>.\<close>

definition trim :: "string \<Rightarrow> string" where
  "trim s = rev (dropWhile isWhiteSpace (rev (dropWhile isWhiteSpace s)))"

text \<open>
  \<^verbatim>\<open>s.split(sep)\<close> for a one-character separator: the pieces between the separators,
  one piece more than there are separators (so the empty string gives one empty piece).
\<close>

fun split :: "char \<Rightarrow> string \<Rightarrow> string list" where
  "split sep [] = [[]]"
| "split sep (c # cs) =
     (if c = sep then [] # split sep cs
      else (case split sep cs of
              [] \<Rightarrow> [[c]]
            | w # ws \<Rightarrow> (c # w) # ws))"

text \<open>\<^verbatim>\<open>xs.join(sep)\<close> on strings.\<close>

fun join :: "string \<Rightarrow> string list \<Rightarrow> string" where
  "join sep [] = []"
| "join sep [x] = x"
| "join sep (x # y # ys) = x @ sep @ join sep (y # ys)"

definition isDigit :: "char \<Rightarrow> bool" where
  "isDigit c = (c \<in> set ''0123456789'')"

definition digitChar :: "nat \<Rightarrow> char" where
  "digitChar d = ''0123456789'' ! d"

definition digitValue :: "char \<Rightarrow> nat" where
  "digitValue c = of_char c - 48"

text \<open>The decimal rendering of a number in a template string, \<^verbatim>\<open>`${n}`\<close>.\<close>

fun numberToString :: "nat \<Rightarrow> string" where
  "numberToString n =
     (if n < 10 then [digitChar n] else numberToString (n div 10) @ [digitChar (n mod 10)])"

declare numberToString.simps [simp del]

text \<open>The exact value of a string of decimal digits.\<close>

definition digitsValue :: "string \<Rightarrow> nat" where
  "digitsValue s = foldl (\<lambda>n c. 10 * n + digitValue c) 0 s"

text \<open>
  A JavaScript number is a double: an integer of more than 53 bits is rounded to the
  nearest one with a 53-bit mantissa, ties to even.
\<close>

definition roundToDouble :: "nat \<Rightarrow> nat" where
  "roundToDouble n =
     (if n < 2 ^ 53 then n
      else let e = floorlog 2 n - 53;
               q = n div 2 ^ e;
               r = n mod 2 ^ e;
               h = 2 ^ (e - 1)
           in if r < h \<or> (r = h \<and> even q) then q * 2 ^ e else (q + 1) * 2 ^ e)"

text \<open>Unary plus on a string of decimal digits, \<^verbatim>\<open>+id\<close>.\<close>

definition toNumber :: "string \<Rightarrow> nat" where
  "toNumber s = roundToDouble (digitsValue s)"

text \<open>\<^verbatim>\<open>a < b\<close> on strings: lexicographic on the character codes.\<close>

fun stringLess :: "string \<Rightarrow> string \<Rightarrow> bool" where
  "stringLess [] [] = False"
| "stringLess [] (y # ys) = True"
| "stringLess (x # xs) [] = False"
| "stringLess (x # xs) (y # ys) =
     (if x = y then stringLess xs ys else (of_char x :: nat) < of_char y)"


section \<open>Errors\<close>

text \<open>
  Every \<^verbatim>\<open>throw\<close> of the module is a value, one constructor for each kind of error, with
  the message of the thrown object:
  \<^item> \<open>InvalidVersion\<close>: the \<^verbatim>\<open>TypeError\<close> of the \<^verbatim>\<open>SemVer\<close> constructor;
  \<^item> \<open>UpstreamFetch\<close>: a response whose status is not 200 (\<^verbatim>\<open>"Failed to download ..."\<close>);
  \<^item> \<open>MalformedArgs\<close>: \<^verbatim>\<open>"malformed extra-args: ..."\<close>;
  \<^item> \<open>InvalidAnnotateValue\<close>: \<^verbatim>\<open>"invalid value ..."\<close>;
  \<^item> \<open>Collaborator\<close>: an exception raised inside a collaborator (the HTTP client, the
    JSON and schema parsers, the tool cache).
\<close>

datatype error =
    InvalidVersion string
  | UpstreamFetch string
  | MalformedArgs string
  | InvalidAnnotateValue string
  | Collaborator string

section \<open>The class SemVer of the semver package\<close>

text \<open>
  \<^verbatim>\<open>helpers.ts\<close> imports \<^verbatim>\<open>SemVer\<close> from \<^verbatim>\<open>semver/classes/semver\<close> and uses its constructor,
  \<^verbatim>\<open>format\<close> and \<^verbatim>\<open>compare\<close>. The class is modelled with its default options (strict
  parsing). A prerelease identifier is a number or a string, as in the package.
\<close>

datatype ident = Numeric nat | Alphanumeric string

record SemVer =
  raw :: string
  major :: nat
  minor :: nat
  patch :: nat
  prerelease :: "ident list"
  build :: "string list"
  version :: string

definition MAX_LENGTH :: nat where
  "MAX_LENGTH = 256"

definition MAX_SAFE_INTEGER :: nat where
  "MAX_SAFE_INTEGER = 9007199254740991"

definition isLetterDashNumber :: "char \<Rightarrow> bool" where
  "isLetterDashNumber c =
     (c \<in> set ''abcdefghijklmnopqrstuvwxyzABCDEFGHIJKLMNOPQRSTUVWXYZ0123456789-'')"

text \<open>\<^verbatim>\<open>/^[0-9]+$/.test(s)\<close>.\<close>

definition isNumeric :: "string \<Rightarrow> bool" where
  "isNumeric s = (s \<noteq> [] \<and> list_all isDigit s)"

text \<open>The token \<^verbatim>\<open>NUMERICIDENTIFIER\<close>, \<^verbatim>\<open>0|[1-9]\d*\<close>.\<close>

definition numericIdentifier :: "string \<Rightarrow> bool" where
  "numericIdentifier s =
     (case s of
        [] \<Rightarrow> False
      | c # cs \<Rightarrow> if c = CHR ''0'' then cs = [] else isDigit c \<and> list_all isDigit cs)"

text \<open>
  The token \<^verbatim>\<open>PRERELEASEIDENTIFIER\<close>: \<^verbatim>\<open>\d*[a-zA-Z-][a-zA-Z0-9-]*\<close> (letters, digits and
  hyphens with at least one that is not a digit) or a numeric identifier.
\<close>

definition prereleaseIdentifier :: "string \<Rightarrow> bool" where
  "prereleaseIdentifier s =
     (if list_all isDigit s then numericIdentifier s
      else list_all isLetterDashNumber s)"

text \<open>The token \<^verbatim>\<open>BUILDIDENTIFIER\<close>, \<^verbatim>\<open>[a-zA-Z0-9-]+\<close>.\<close>

definition buildIdentifier :: "string \<Rightarrow> bool" where
  "buildIdentifier s = (s \<noteq> [] \<and> list_all isLetterDashNumber s)"

text \<open>The text before the first occurrence of a character, and the text after it if it occurs.\<close>

definition breakAt :: "char \<Rightarrow> string \<Rightarrow> string \<times> string option" where
  "breakAt c s =
     (takeWhile (\<lambda>x. x \<noteq> c) s,
      case dropWhile (\<lambda>x. x \<noteq> c) s of [] \<Rightarrow> None | _ # rest \<Rightarrow> Some rest)"

text \<open>
  A match of the regular expression \<^verbatim>\<open>FULL\<close>,
  \<^verbatim>\<open>^v?(N)\.(N)\.(N)(?:-(P(?:\.P)*))?(?:\+(B(?:\.B)*))?$\<close>, with its five groups. No
  identifier holds a \<^verbatim>\<open>+\<close> and the main version holds no \<^verbatim>\<open>-\<close>, so the first \<^verbatim>\<open>+\<close>
  starts the build metadata and the first \<^verbatim>\<open>-\<close> before it starts the prerelease.
\<close>

definition matchFull ::
  "string \<Rightarrow> (string \<times> string \<times> string \<times> string option \<times> string option) option" where
  "matchFull s =
     (let s1 = (case s of [] \<Rightarrow> s | c # cs \<Rightarrow> if c = CHR ''v'' then cs else s);
          (mainPre, m5) = breakAt CHR ''+'' s1;
          (main, m4) = breakAt CHR ''-'' mainPre
      in case split CHR ''.'' main of
           [m1, m2, m3] \<Rightarrow>
             if numericIdentifier m1 \<and> numericIdentifier m2 \<and> numericIdentifier m3
                \<and> (case m4 of None \<Rightarrow> True
                    | Some p \<Rightarrow> list_all prereleaseIdentifier (split CHR ''.'' p))
                \<and> (case m5 of None \<Rightarrow> True
                    | Some b \<Rightarrow> list_all buildIdentifier (split CHR ''.'' b))
             then Some (m1, m2, m3, m4, m5)
             else None
         | _ \<Rightarrow> None)"

definition identifierToString :: "ident \<Rightarrow> string" where
  "identifierToString a = (case a of Numeric n \<Rightarrow> numberToString n | Alphanumeric s \<Rightarrow> s)"

text \<open>
  \<^verbatim>\<open>format()\<close>: the normalized version string, without the \<^verbatim>\<open>v\<close> and the build metadata.
  The method also stores it in the field \<^verbatim>\<open>version\<close>, which the constructor below does
  with its result.
\<close>

definition format :: "SemVer \<Rightarrow> string" where
  "format sv =
     numberToString (major sv) @ ''.'' @ numberToString (minor sv) @ ''.''
       @ numberToString (patch sv)
       @ (if prerelease sv \<noteq> []
          then ''-'' @ join ''.'' (map identifierToString (prerelease sv))
          else [])"

text \<open>\<^verbatim>\<open>new SemVer(version)\<close>.\<close>

definition newSemVer :: "string \<Rightarrow> error + SemVer" where
  "newSemVer v =
     (if length v > MAX_LENGTH
      then Inl (InvalidVersion ''version is longer than 256 characters'')
      else case matchFull (trim v) of
        None \<Rightarrow> Inl (InvalidVersion (''Invalid Version: '' @ v))
      | Some (m1, m2, m3, m4, m5) \<Rightarrow>
          if toNumber m1 > MAX_SAFE_INTEGER then Inl (InvalidVersion ''Invalid major version'')
          else if toNumber m2 > MAX_SAFE_INTEGER
          then Inl (InvalidVersion ''Invalid minor version'')
          else if toNumber m3 > MAX_SAFE_INTEGER
          then Inl (InvalidVersion ''Invalid patch version'')
          else
            let this = \<lparr> raw = v, major = toNumber m1, minor = toNumber m2,
                         patch = toNumber m3,
                         prerelease =
                           (case m4 of
                              None \<Rightarrow> []
                            | Some p \<Rightarrow>
                                map (\<lambda>id. if isNumeric id \<and> toNumber id < MAX_SAFE_INTEGER
                                          then Numeric (toNumber id) else Alphanumeric id)
                                    (split CHR ''.'' p)),
                         build = (case m5 of None \<Rightarrow> [] | Some b \<Rightarrow> split CHR ''.'' b),
                         version = [] \<rparr>
            in Inr (this\<lparr>version := format this\<rparr>))"

text \<open>\<^verbatim>\<open>compareIdentifiers\<close> of \<^verbatim>\<open>semver/internal/identifiers\<close>; the results are -1, 0 and 1.\<close>

definition numericTest :: "ident \<Rightarrow> bool" where
  "numericTest a = (case a of Numeric n \<Rightarrow> True | Alphanumeric s \<Rightarrow> isNumeric s)"

definition identifierNumber :: "ident \<Rightarrow> nat" where
  "identifierNumber a = (case a of Numeric n \<Rightarrow> n | Alphanumeric s \<Rightarrow> toNumber s)"

definition compareIdentifiers :: "ident \<Rightarrow> ident \<Rightarrow> int" where
  "compareIdentifiers a b =
     (let anum = numericTest a; bnum = numericTest b
      in if anum \<and> bnum
         then (let x = identifierNumber a; y = identifierNumber b
               in if x = y then 0 else if x < y then - 1 else 1)
         else if a = b then 0
         else if anum \<and> \<not> bnum then - 1
         else if bnum \<and> \<not> anum then 1
         else if stringLess (identifierToString a) (identifierToString b) then - 1
         else 1)"

definition compareMain :: "SemVer \<Rightarrow> SemVer \<Rightarrow> int" where
  "compareMain this other =
     (let c1 = compareIdentifiers (Numeric (major this)) (Numeric (major other));
          c2 = compareIdentifiers (Numeric (minor this)) (Numeric (minor other));
          c3 = compareIdentifiers (Numeric (patch this)) (Numeric (patch other))
      in if c1 \<noteq> 0 then c1 else if c2 \<noteq> 0 then c2 else c3)"

text \<open>The loop of \<^verbatim>\<open>comparePre\<close> over the index \<^verbatim>\<open>i\<close>, as a recursion over both lists.\<close>

fun comparePreLoop :: "ident list \<Rightarrow> ident list \<Rightarrow> int" where
  "comparePreLoop [] [] = 0"
| "comparePreLoop (a # as) [] = 1"
| "comparePreLoop [] (b # bs) = - 1"
| "comparePreLoop (a # as) (b # bs) =
     (if a = b then comparePreLoop as bs else compareIdentifiers a b)"

definition comparePre :: "SemVer \<Rightarrow> SemVer \<Rightarrow> int" where
  "comparePre this other =
     (if prerelease this \<noteq> [] \<and> prerelease other = [] then - 1
      else if prerelease this = [] \<and> prerelease other \<noteq> [] then 1
      else if prerelease this = [] \<and> prerelease other = [] then 0
      else comparePreLoop (prerelease this) (prerelease other))"

text \<open>\<^verbatim>\<open>this.compare(other)\<close> with a string \<^verbatim>\<open>other\<close>, which the method parses.\<close>

definition compare :: "SemVer \<Rightarrow> string \<Rightarrow> error + int" where
  "compare this other =
     (if other = version this then Inr 0
      else case newSemVer other of
        Inl e \<Rightarrow> Inl e
      | Inr other' \<Rightarrow>
          if version other' = version this then Inr 0
          else let c = compareMain this other'
               in Inr (if c \<noteq> 0 then c else comparePre this other'))"


section \<open>The collaborators\<close>

text \<open>
  What the module reads from its environment and the libraries it calls are the fields
  of one record, fixed for a run:
  \<^item> \<open>getInput\<close> is \<^verbatim>\<open>core.getInput\<close>: the value of a named input, empty when absent;
  \<^item> \<open>httpGet\<close> is \<^verbatim>\<open>client.get(url)\<close> followed by \<^verbatim>\<open>resp.readBody()\<close>: the status code
    and the body;
  \<^item> \<open>parseNpmRegistryResponse\<close> and \<open>parsePylanceBuildMetadata\<close> are the parsers of
    \<^verbatim>\<open>./schema\<close> applied to \<^verbatim>\<open>JSON.parse(body)\<close>; of the build metadata only the field
    \<^verbatim>\<open>pyrightVersion\<close> is read;
  \<^item> \<open>tcFind\<close>, \<open>tcDownloadTool\<close>, \<open>tcExtractTar\<close> and \<open>tcCacheDir\<close> are the functions
    of \<^verbatim>\<open>@actions/tool-cache\<close>;
  \<^item> \<open>pathJoin\<close> is \<^verbatim>\<open>path.join\<close> of the platform;
  \<^item> \<open>parse\<close> is \<^verbatim>\<open>parse\<close> of \<^verbatim>\<open>shell-quote\<close>, whose entries are strings, operators,
    glob patterns or comments.
  A collaborator that can throw returns a sum.
\<close>

text \<open>
  Modelled from the spec: the type \<^verbatim>\<open>NpmRegistryResponse\<close> of \<^verbatim>\<open>./schema\<close>, "a version
  string and a nested tarball distribution URL" (\<^verbatim>\<open>version\<close> and \<^verbatim>\<open>dist.tarball\<close>).
\<close>

record NpmRegistryResponse =
  npmVersion :: string
  distTarball :: string

datatype ParseEntry = Token string | Op string | GlobOp string | Comment string

record env =
  getInput :: "string \<Rightarrow> string"
  httpGet :: "string \<Rightarrow> error + (nat \<times> string)"
  parseNpmRegistryResponse :: "string \<Rightarrow> error + NpmRegistryResponse"
  parsePylanceBuildMetadata :: "string \<Rightarrow> error + string"
  tcFind :: "string \<Rightarrow> string \<Rightarrow> string"
  tcDownloadTool :: "string \<Rightarrow> error + string"
  tcExtractTar :: "string \<Rightarrow> error + string"
  tcCacheDir :: "string \<Rightarrow> string \<Rightarrow> string \<Rightarrow> error + string"
  pathJoin :: "string list \<Rightarrow> string"
  parse :: "string \<Rightarrow> error + ParseEntry list"

text \<open>
  The effects of an asynchronous function are the list of the calls it made that reach
  outside the process, in order, beside its result.
\<close>

datatype effect =
    HttpGet string
  | Info string
  | DownloadTool string
  | ExtractTar string
  | CacheDir string string string

type_synonym 'a io = "(error + 'a) \<times> effect list"

text \<open>\<^verbatim>\<open>await m\<close> followed by the rest of the function: an error of \<open>m\<close> ends it.\<close>

definition andThen :: "'a io \<Rightarrow> ('a \<Rightarrow> 'b io) \<Rightarrow> 'b io" where
  "andThen m f =
     (case m of
        (Inl e, t) \<Rightarrow> (Inl e, t)
      | (Inr x, t) \<Rightarrow> (case f x of (r, t') \<Rightarrow> (r, t @ t')))"

text \<open>A call of a collaborator, recorded as one effect.\<close>

definition call :: "effect \<Rightarrow> error + 'a \<Rightarrow> 'a io" where
  "call eff r = (r, [eff])"

definition HttpCodes_OK :: nat where
  "HttpCodes_OK = 200"

section \<open>Version resolution\<close>

definition getPylancePyrightVersion :: "env \<Rightarrow> string \<Rightarrow> string io" where
  "getPylancePyrightVersion env pylanceVersion =
     (let url = ''https://raw.githubusercontent.com/microsoft/pylance-release/main/releases/''
                  @ pylanceVersion @ ''.json''
      in andThen (call (HttpGet url) (httpGet env url)) (\<lambda>(statusCode, body).
           if statusCode \<noteq> HttpCodes_OK
           then (Inl (UpstreamFetch (''Failed to download release metadata for Pylance ''
                        @ pylanceVersion @ '' from '' @ url @ '' -- '' @ body)), [])
           else case parsePylanceBuildMetadata env body of
                  Inl e \<Rightarrow> (Inl e, [])
                | Inr pyrightVersion \<Rightarrow>
                    (Inr pyrightVersion,
                     [Info (''Pylance '' @ pylanceVersion @ '' uses pyright ''
                              @ pyrightVersion)])))"

definition getPyrightVersion :: "env \<Rightarrow> string io" where
  "getPyrightVersion env =
     (let versionSpec = getInput env ''version''
      in if versionSpec \<noteq> []
         then (case newSemVer versionSpec of
                 Inl e \<Rightarrow> (Inl e, [])
               | Inr sv \<Rightarrow> (Inr (format sv), []))
         else
           let pylanceVersion = getInput env ''pylance-version''
           in if pylanceVersion \<noteq> []
              then (if pylanceVersion \<noteq> ''latest-release''
                       \<and> pylanceVersion \<noteq> ''latest-prerelease''
                    then (case newSemVer pylanceVersion of
                            Inl e \<Rightarrow> (Inl e, [])
                          | Inr sv \<Rightarrow> getPylancePyrightVersion env pylanceVersion)
                    else getPylancePyrightVersion env pylanceVersion)
              else (Inr ''latest'', []))"

definition getPyrightInfo :: "env \<Rightarrow> NpmRegistryResponse io" where
  "getPyrightInfo env =
     andThen (getPyrightVersion env) (\<lambda>version.
       let url = ''https://registry.npmjs.org/pyright/'' @ version
       in andThen (call (HttpGet url) (httpGet env url)) (\<lambda>(statusCode, body).
            if statusCode \<noteq> HttpCodes_OK
            then (Inl (UpstreamFetch (''Failed to download metadata for pyright '' @ version
                         @ '' from '' @ url @ '' -- '' @ body)), [])
            else (parseNpmRegistryResponse env body, [])))"

definition pyrightToolName :: string where
  "pyrightToolName = ''pyright''"

definition downloadPyright :: "env \<Rightarrow> NpmRegistryResponse \<Rightarrow> string io" where
  "downloadPyright env info =
     (let found = tcFind env pyrightToolName (npmVersion info)
      in if found \<noteq> [] then (Inr found, [])
         else
           andThen (call (DownloadTool (distTarball info))
                      (tcDownloadTool env (distTarball info))) (\<lambda>tarballPath.
           andThen (call (ExtractTar tarballPath) (tcExtractTar env tarballPath))
             (\<lambda>extractedPath.
           call (CacheDir extractedPath pyrightToolName (npmVersion info))
             (tcCacheDir env extractedPath pyrightToolName (npmVersion info)))))"

section \<open>Arguments and annotations\<close>

definition flagsWithoutCommentingSupport :: "string set" where
  "flagsWithoutCommentingSupport =
     {''--verifytypes'', ''--stats'', ''--verbose'', ''--createstub'', ''--dependencies''}"

definition isAnnotateNone :: "string \<Rightarrow> bool" where
  "isAnnotateNone name = (name = ''none'' \<or> toUpperCase name = ''FALSE'')"

definition isAnnotateAll :: "string \<Rightarrow> bool" where
  "isAnnotateAll name = (name = ''all'' \<or> toUpperCase name = ''TRUE'')"

definition getBooleanInput :: "env \<Rightarrow> string \<Rightarrow> bool \<Rightarrow> bool" where
  "getBooleanInput env name defaultValue =
     (let input = getInput env name
      in if input = [] then defaultValue else toUpperCase input = ''TRUE'')"

text \<open>
  \<^verbatim>\<open>JSON.stringify\<close> of a string: the string in double quotes, with the quote, the
  backslash and the control characters escaped.
\<close>

definition hexDigit :: "nat \<Rightarrow> char" where
  "hexDigit k = ''0123456789abcdef'' ! (k mod 16)"

definition quoteJSONChar :: "char \<Rightarrow> string" where
  "quoteJSONChar c =
     (if c = CHR 0x08 then [CHR 0x5C, CHR ''b'']
      else if c = CHR 0x09 then [CHR 0x5C, CHR ''t'']
      else if c = CHR 0x0A then [CHR 0x5C, CHR ''n'']
      else if c = CHR 0x0C then [CHR 0x5C, CHR ''f'']
      else if c = CHR 0x0D then [CHR 0x5C, CHR ''r'']
      else if c = CHR 0x22 then [CHR 0x5C, CHR 0x22]
      else if c = CHR 0x5C then [CHR 0x5C, CHR 0x5C]
      else if (of_char c :: nat) < 32
      then [CHR 0x5C, CHR ''u'', CHR ''0'', CHR ''0'',
            hexDigit (of_char c div 16), hexDigit (of_char c)]
      else [c])"

definition JSON_stringify :: "string \<Rightarrow> string" where
  "JSON_stringify s = [CHR 0x22] @ concat (map quoteJSONChar s) @ [CHR 0x22]"

text \<open>
  The loop over \<^verbatim>\<open>parse(extraArgs)\<close> (lines 156 to 162): every entry must be a string.
\<close>

fun pushExtraArgs :: "string \<Rightarrow> ParseEntry list \<Rightarrow> string list \<Rightarrow> error + string list" where
  "pushExtraArgs extraArgs [] args = Inr args"
| "pushExtraArgs extraArgs (arg # rest) args =
     (case arg of
        Token s \<Rightarrow> pushExtraArgs extraArgs rest (args @ [s])
      | _ \<Rightarrow> Inl (MalformedArgs (''malformed extra-args: '' @ extraArgs)))"

text \<open>
  The first part of \<^verbatim>\<open>getArgs\<close> (lines 60 to 163), after the two awaited calls: the
  argument vector, from the version of the registry response and the path of the
  downloaded package.
\<close>

definition getArgs_args :: "env \<Rightarrow> string \<Rightarrow> string \<Rightarrow> error + string list" where
  "getArgs_args env infoVersion pyrightPath =
     (case newSemVer infoVersion of
        Inl e \<Rightarrow> Inl e
      | Inr pyrightVersion \<Rightarrow>
     (case compare pyrightVersion ''1.1.309'' of
        Inl e \<Rightarrow> Inl e
      | Inr c \<Rightarrow>
     (let useDashedFlags = (c = - 1);
          args = [pathJoin env [pyrightPath, ''package'', ''index.js'']];
          createStub = getInput env ''create-stub'';
          args = (if createStub \<noteq> [] then args @ [''--createstub'', createStub] else args);
          dependencies = getInput env ''dependencies'';
          args = (if dependencies \<noteq> [] then args @ [''--dependencies'', dependencies]
                  else args);
          ignoreExternal = getInput env ''ignore-external'';
          args = (if ignoreExternal \<noteq> [] then args @ [''--ignoreexternal''] else args);
          level = getInput env ''level'';
          args = (if level \<noteq> [] then args @ [''--level'', level] else args);
          project = getInput env ''project'';
          args = (if project \<noteq> [] then args @ [''--project'', project] else args);
          pythonPlatform = getInput env ''python-platform'';
          args = (if pythonPlatform \<noteq> [] then args @ [''--pythonplatform'', pythonPlatform]
                  else args);
          pythonPath = getInput env ''python-path'';
          args = (if pythonPath \<noteq> [] then args @ [''--pythonpath'', pythonPath] else args);
          pythonVersion = getInput env ''python-version'';
          args = (if pythonVersion \<noteq> [] then args @ [''--pythonversion'', pythonVersion]
                  else args);
          skipUnannotated = getBooleanInput env ''skip-unannotated'' False;
          args = (if skipUnannotated then args @ [''--skipunannotated''] else args);
          stats = getBooleanInput env ''stats'' False;
          args = (if stats then args @ [''--stats''] else args);
          typeshedPath = getInput env ''typeshed-path'';
          args = (if typeshedPath \<noteq> []
                  then args @ [if useDashedFlags then ''--typeshed-path''
                               else ''--typeshedpath'', typeshedPath]
                  else args);
          venvPath = getInput env ''venv-path'';
          args = (if venvPath \<noteq> []
                  then args @ [if useDashedFlags then ''--venv-path'' else ''--venvpath'',
                               venvPath]
                  else args);
          verbose = getBooleanInput env ''verbose'' False;
          args = (if verbose then args @ [''--lib''] else args);
          verifyTypes = getInput env ''verify-types'';
          args = (if verifyTypes \<noteq> [] then args @ [''--verifytypes'', verifyTypes]
                  else args);
          warnings = getBooleanInput env ''warnings'' False;
          args = (if warnings then args @ [''--warnings''] else args);
          lib = getBooleanInput env ''lib'' False;
          args = (if lib then args @ [''--lib''] else args);
          extraArgs = getInput env ''extra-args''
      in if extraArgs \<noteq> []
         then (case parse env extraArgs of
                 Inl e \<Rightarrow> Inl e
               | Inr entries \<Rightarrow> pushExtraArgs extraArgs entries args)
         else Inr args)))"

text \<open>The loop over the comma-separated values of the annotate input (lines 175 to 196).\<close>

fun annotateLoop :: "string list \<Rightarrow> string set \<Rightarrow> error + string set" where
  "annotateLoop [] annotate = Inr annotate"
| "annotateLoop (v # rest) annotate =
     (let value = trim v
      in if value = ''errors'' then annotateLoop rest (insert ''error'' annotate)
         else if value = ''warnings'' then annotateLoop rest (insert ''warning'' annotate)
         else if isAnnotateAll value \<or> isAnnotateNone value
         then Inl (InvalidAnnotateValue (''invalid value '' @ JSON_stringify value
                     @ '' in comma-separated annotate''))
         else Inl (InvalidAnnotateValue (''invalid value '' @ JSON_stringify value
                     @ '' for annotate'')))"

text \<open>
  The second part of \<^verbatim>\<open>getArgs\<close> (lines 165 to 204): the set of severities to annotate,
  from the annotate input, the no-comments input and the argument vector built before.
\<close>

definition getArgs_annotate :: "env \<Rightarrow> string list \<Rightarrow> error + string set" where
  "getArgs_annotate env args =
     (let annotateInput = (if trim (getInput env ''annotate'') \<noteq> []
                           then trim (getInput env ''annotate'') else ''all'');
          annotateInput = (if isAnnotateNone annotateInput then []
                           else if isAnnotateAll annotateInput then ''errors, warnings''
                           else annotateInput);
          split = (if annotateInput \<noteq> [] then split CHR '','' annotateInput else [])
      in case annotateLoop split {} of
           Inl e \<Rightarrow> Inl e
         | Inr annotate \<Rightarrow>
             let noComments = (getBooleanInput env ''no-comments'' False
                               \<or> list_ex (\<lambda>arg. arg \<in> flagsWithoutCommentingSupport) args)
             in Inr (if noComments then {} else annotate))"

record Args =
  workingDirectory :: string
  annotate :: "string set"
  pyrightVersion :: string
  args :: "string list"

text \<open>\<^verbatim>\<open>getArgs\<close>: the two awaited calls, then the two parts above.\<close>

definition getArgs :: "env \<Rightarrow> Args io" where
  "getArgs env =
     andThen (getPyrightInfo env) (\<lambda>pyrightInfo.
     andThen (downloadPyright env pyrightInfo) (\<lambda>pyrightPath.
       ((case getArgs_args env (npmVersion pyrightInfo) pyrightPath of
          Inl e \<Rightarrow> Inl e
        | Inr args' \<Rightarrow>
            (case getArgs_annotate env args' of
               Inl e \<Rightarrow> Inl e
             | Inr annotate' \<Rightarrow>
                 Inr \<lparr> workingDirectory = getInput env ''working-directory'',
                       annotate = annotate',
                       pyrightVersion = npmVersion pyrightInfo,
                       args = args' \<rparr>)),
        [])))"

section \<open>Formatting a diagnostic\<close>

text \<open>
  Modelled from the spec: the types \<^verbatim>\<open>Position\<close>, \<^verbatim>\<open>Range\<close> and \<^verbatim>\<open>Diagnostic\<close> of
  \<^verbatim>\<open>./schema\<close>, "file: optional path, range: optional {start:{line,character},
  end:{line,character}}, severity: enum, message: string, rule: optional string". The
  severity is the string of the enumeration's value, which is all the formatter uses.
\<close>

record Position =
  line :: nat
  character :: nat

record Range =
  start :: Position
  end' :: Position

record Diagnostic =
  file' :: "string option"
  range' :: "Range option"
  severity :: string
  message :: string
  rule :: "string option"

text \<open>
  Modelled from the spec: the function \<^verbatim>\<open>isEmptyRange\<close> of \<^verbatim>\<open>./schema\<close>, "range is
  considered empty when start equals end".
\<close>

definition isEmptyRange :: "Range \<Rightarrow> bool" where
  "isEmptyRange r = (start r = end' r)"

text \<open>The truth value of an optional string: present and not empty.\<close>

definition truthy :: "string option \<Rightarrow> bool" where
  "truthy s = (case s of None \<Rightarrow> False | Some x \<Rightarrow> x \<noteq> [])"

definition diagnosticToString :: "Diagnostic \<Rightarrow> bool \<Rightarrow> string" where
  "diagnosticToString diag forCommand =
     (let message = [];
          message =
            (if \<not> forCommand
             then (let message = (if truthy (file' diag) then message @ the (file' diag) @ '':''
                                  else message);
                       message =
                         (case range' diag of
                            None \<Rightarrow> message
                          | Some r \<Rightarrow>
                              if \<not> isEmptyRange r
                              then message @ numberToString (line (start r) + 1) @ '':''
                                     @ numberToString (character (start r) + 1) @ '' -''
                              else message)
                   in message @ '' '' @ severity diag @ '': '')
             else message);
          message = message @ Diagnostic.message diag
      in if truthy (rule diag) then message @ '' ('' @ the (rule diag) @ '')'' else message)"

section \<open>The function parse of the shell-quote package\<close>

text \<open>
  \<^verbatim>\<open>helpers.ts\<close> calls \<^verbatim>\<open>parse(extraArgs)\<close> of \<^verbatim>\<open>shell-quote\<close> without an environment. The
  function cuts its argument into chunks with a regular expression and scans each
  chunk. It is modelled here for every argument in which no variable is expanded: where
  the scanner would expand a variable (a \<^verbatim>\<open>$\<close> outside single quotes that is not escaped),
  the model has no result (\<open>None\<close>).
\<close>

definition BS :: char where
  "BS = CHR 0x5C"

definition SQ :: char where
  "SQ = CHR 0x27"

definition DQ :: char where
  "DQ = CHR 0x22"

definition DS :: char where
  "DS = CHR ''$''"

text \<open>The characters of \<^verbatim>\<open>META\<close>, \<^verbatim>\<open>|&;()<> \t\<close>.\<close>

definition isMeta :: "char \<Rightarrow> bool" where
  "isMeta c = (c \<in> set (''|&;()<> '' @ [CHR 0x09]))"

definition isQuote :: "char \<Rightarrow> bool" where
  "isQuote c = (c = SQ \<or> c = DQ)"

text \<open>The class \<^verbatim>\<open>[^\s'"|&;()<> \t]\<close> of the characters of a bare word.\<close>

definition isBare :: "char \<Rightarrow> bool" where
  "isBare c = (\<not> isWhiteSpace c \<and> \<not> isQuote c \<and> \<not> isMeta c)"

text \<open>
  The alternatives of \<^verbatim>\<open>CONTROL\<close> in their order; the last seven are the class
  \<^verbatim>\<open>[&;()|<>]\<close>. At a position the first alternative that matches is taken.
\<close>

definition controlOperators :: "string list" where
  "controlOperators =
     [''||'', ''&&'', '';;'', ''|&'', ''<('', ''<<<'', ''>>'', ''>&'', ''<&'',
      ''&'', '';'', ''('', '')'', ''|'', ''<'', ''>'']"

definition matchControl :: "string \<Rightarrow> (string \<times> string) option" where
  "matchControl s =
     (case filter (\<lambda>op. take (length op) s = op) controlOperators of
        [] \<Rightarrow> None
      | op # _ \<Rightarrow> Some (op, drop (length op) s))"

text \<open>\<^verbatim>\<open>controlRE.test(c)\<close> for one character.\<close>

definition isControlChar :: "char \<Rightarrow> bool" where
  "isControlChar c = (c \<in> set ''&;()|<>'')"

text \<open>
  \<^verbatim>\<open>BAREWORD\<close>, \<^verbatim>\<open>(\\['"|&;()<> \t]|[^\s'"|&;()<> \t])+\<close>: the longest run of escaped
  quotes or meta characters and of bare characters at the start of a string, and the
  rest of the string.
\<close>

fun bareRun :: "string \<Rightarrow> string \<times> string" where
  "bareRun [] = ([], [])"
| "bareRun [c] = (if isBare c then ([c], []) else ([], [c]))"
| "bareRun (c # d # s) =
     (if c = BS \<and> (isQuote d \<or> isMeta d)
      then (case bareRun s of (w, r) \<Rightarrow> (c # d # w, r))
      else if isBare c
      then (case bareRun (d # s) of (w, r) \<Rightarrow> (c # w, r))
      else ([], c # d # s))"

text \<open>
  The rest of a quoted string after its opening quote \<open>q\<close>,
  \<^verbatim>\<open>((\\q|[^q])*?)q\<close>: the body and what follows the closing quote, if the string is
  closed. The body is extended lazily, an escaped quote before a single character; when
  no closing quote follows an escaped quote, the backslash is a single character and the
  quote closes the string.
\<close>

fun closeQuote :: "char \<Rightarrow> string \<Rightarrow> (string \<times> string) option" where
  "closeQuote q [] = None"
| "closeQuote q [c] = (if c = q then Some ([], []) else None)"
| "closeQuote q (c # d # s) =
     (if c = q then Some ([], d # s)
      else if c = BS \<and> d = q
      then (case closeQuote q s of
              Some (body, r) \<Rightarrow> Some (c # d # body, r)
            | None \<Rightarrow> Some ([c], s))
      else (case closeQuote q (d # s) of
              Some (body, r) \<Rightarrow> Some (c # body, r)
            | None \<Rightarrow> None))"

text \<open>
  A chunk of words, \<^verbatim>\<open>(BAREWORD|"..."|'...')+\<close>: bare words and closed quoted strings as
  long as one follows the other, and the rest of the string. An opening quote that is
  not closed ends the chunk before it.
\<close>

function wordChunk :: "string \<Rightarrow> string \<times> string" where
  "wordChunk s =
     (case bareRun s of
        (w, r) \<Rightarrow>
          if w \<noteq> [] then (case wordChunk r of (w', r') \<Rightarrow> (w @ w', r'))
          else (case s of
                  [] \<Rightarrow> ([], [])
                | c # cs \<Rightarrow>
                    if isQuote c
                    then (case closeQuote c cs of
                            None \<Rightarrow> ([], s)
                          | Some (body, r) \<Rightarrow>
                              (case wordChunk r of (w', r') \<Rightarrow> (c # body @ c # w', r')))
                    else ([], s)))"
  by pat_completeness auto
termination
proof (relation "measure length")
  have bare: "s = w @ r" if "bareRun s = (w, r)" for s w r
    using that
    by (induction s arbitrary: w r rule: bareRun.induct) (auto split: if_splits prod.splits)
  have closed: "s = body @ q # r" if "closeQuote q s = Some (body, r)" for q s body r
    using that
    by (induction q s arbitrary: body r rule: closeQuote.induct)
      (auto split: if_splits option.splits)
  show "wf (measure length)"
    by simp
  show "(r, s) \<in> measure length" if "(w, r) = bareRun s" and "w \<noteq> []" for s w r
    using bare [of s w r] that by simp
  show "(r, s) \<in> measure length"
    if "s = c # cs" and "closeQuote c cs = Some x" and "(body, r) = x" for s c cs x body r
    using closed [of c cs body r] that by simp
qed

declare wordChunk.simps [simp del]

text \<open>
  The scanner of one chunk: the loop over its characters, with the variables \<^verbatim>\<open>quote\<close>,
  \<^verbatim>\<open>esc\<close>, \<^verbatim>\<open>out\<close> and \<^verbatim>\<open>isGlob\<close>. The arguments are the chunk, the input after the chunk,
  the variables and the characters still to read. The result is the entries of the
  chunk and whether a comment has started.
\<close>

fun scan ::
  "string \<Rightarrow> string \<Rightarrow> char option \<Rightarrow> bool \<Rightarrow> string \<Rightarrow> bool \<Rightarrow> string
     \<Rightarrow> (ParseEntry list \<times> bool) option" where
  "scan chunk after quote esc out isGlob [] =
     Some ([if isGlob then GlobOp out else Token out], False)"
| "scan chunk after quote esc out isGlob (c # cs) =
     (let isGlob = (isGlob \<or> (quote = None \<and> (c = CHR ''*'' \<or> c = CHR ''?'')))
      in if esc then scan chunk after quote False (out @ [c]) isGlob cs
         else case quote of
           Some q \<Rightarrow>
             if c = q then scan chunk after None False out isGlob cs
             else if q = SQ then scan chunk after quote False (out @ [c]) isGlob cs
             else if c = BS
             then (case cs of
                     [] \<Rightarrow> scan chunk after quote False (out @ [BS]) isGlob []
                   | d # ds \<Rightarrow>
                       if d = DQ \<or> d = BS \<or> d = DS
                       then scan chunk after quote False (out @ [d]) isGlob ds
                       else scan chunk after quote False (out @ [BS, d]) isGlob ds)
             else if c = DS then None
             else scan chunk after quote False (out @ [c]) isGlob cs
         | None \<Rightarrow>
             if c = DQ \<or> c = SQ then scan chunk after (Some c) False out isGlob cs
             else if isControlChar c then Some ([Op chunk], False)
             else if c = CHR ''#''
             then Some ((if out \<noteq> [] then [Token out] else []) @ [Comment (cs @ after)], True)
             else if c = BS then scan chunk after quote True out isGlob cs
             else if c = DS then None
             else scan chunk after quote False (out @ [c]) isGlob cs)"

text \<open>
  The loop over the matches of the chunker: at each position a control operator, else
  a chunk of words, else the character is passed over. After a comment has started the
  later matches give nothing.
\<close>

function parseLoop :: "string \<Rightarrow> ParseEntry list option" where
  "parseLoop s =
     (if s = [] then Some []
      else case matchControl s of
        Some (op, r) \<Rightarrow> map_option (\<lambda>entries. Op op # entries) (parseLoop r)
      | None \<Rightarrow>
          (case wordChunk s of
             (w, r) \<Rightarrow>
               if w = [] then parseLoop (tl s)
               else (case scan w r None False [] False w of
                       None \<Rightarrow> None
                     | Some (entries, commented) \<Rightarrow>
                         if commented then Some entries
                         else map_option (\<lambda>entries'. entries @ entries') (parseLoop r))))"
  by pat_completeness auto

termination
proof (relation "measure length")
  have bare: "s = w @ r" if "bareRun s = (w, r)" for s w r
    using that
    by (induction s arbitrary: w r rule: bareRun.induct) (auto split: if_splits prod.splits)
  have closed: "s = body @ q # r" if "closeQuote q s = Some (body, r)" for q s body r
    using that
    by (induction q s arbitrary: body r rule: closeQuote.induct)
      (auto split: if_splits option.splits)
  have chunk: "s = w @ r" if "wordChunk s = (w, r)" for s w r
    using that
  proof (induction s arbitrary: w r rule: wordChunk.induct)
    case (1 s)
    obtain w0 r0 where b: "bareRun s = (w0, r0)"
      by (cases "bareRun s")
    note s0 = bare [OF b]
    show ?case
    proof (cases "w0 = []")
      case False
      obtain w' r' where c: "wordChunk r0 = (w', r')"
        by (cases "wordChunk r0")
      have r0: "r0 = w' @ r'"
        using "1.IH"(1) [OF b [symmetric] False c] .
      have "wordChunk s = (w0 @ w', r')"
        using wordChunk.simps [of s] b c False by simp
      then show ?thesis
        using "1.prems" s0 r0 by simp
    next
      case True
      show ?thesis
      proof (cases s)
        case Nil
        have "wordChunk s = ([], s)"
          using wordChunk.simps [of s] b True Nil by simp
        then show ?thesis
          using "1.prems" by simp
      next
        case (Cons c cs)
        show ?thesis
        proof (cases "isQuote c \<and> closeQuote c cs \<noteq> None")
          case False
          have "wordChunk s = ([], s)"
            using wordChunk.simps [of s] b True Cons False by (auto split: option.splits)
          then show ?thesis
            using "1.prems" by simp
        next
          case q: True
          then obtain body r1 where cq: "closeQuote c cs = Some (body, r1)"
            by auto
          obtain w' r' where c': "wordChunk r1 = (w', r')"
            by (cases "wordChunk r1")
          have r1: "r1 = w' @ r'"
          proof (rule "1.IH"(2) [OF b [symmetric] _ Cons _ cq refl c'])
            show "\<not> w0 \<noteq> []"
              using True by simp
            show "isQuote c"
              using q by simp
          qed
          have "wordChunk s = (c # body @ c # w', r')"
            using wordChunk.simps [of s] b True Cons q cq c' by simp
          then show ?thesis
            using "1.prems" Cons r1 closed [OF cq] by simp
        qed
      qed
    qed
  qed
  have control: "s = op @ r \<and> op \<noteq> []" if m: "matchControl s = Some (op, r)" for s op r
  proof -
    obtain ops where f: "filter (\<lambda>op. take (length op) s = op) controlOperators = op # ops"
      and r: "r = drop (length op) s"
      using m by (auto simp: matchControl_def split: list.splits)
    have "op \<in> set (filter (\<lambda>op. take (length op) s = op) controlOperators)"
      unfolding f by simp
    then have "take (length op) s = op" and "op \<in> set controlOperators"
      by simp_all
    then show ?thesis
      using r append_take_drop_id [of "length op" s] by (auto simp: controlOperators_def)
  qed
  show "wf (measure length)"
    by simp
  show "(r, s) \<in> measure length"
    if "s \<noteq> []" and "matchControl s = Some x" and "(op, r) = x" for s x op r
    using control [of s op r] that by auto
  show "(tl s, s) \<in> measure length" if "s \<noteq> []" for s
    using that by (cases s) simp_all
  show "(r, s) \<in> measure length" if "(w, r) = wordChunk s" and "w \<noteq> []" for s w r
    using chunk [of s w r] that by simp
qed

declare parseLoop.simps [simp del]

text \<open>\<^verbatim>\<open>parse(s)\<close>: without an environment function the entries are returned as they are.\<close>

definition shellQuoteParse :: "string \<Rightarrow> ParseEntry list option" where
  "shellQuoteParse s = parseLoop s"

text \<open>
  An environment in which \<^verbatim>\<open>parse\<close> is that of \<^verbatim>\<open>shell-quote\<close> wherever the model has a
  result; where a variable is expanded it is the \<^verbatim>\<open>parse\<close> of the given environment.
\<close>

definition withShellQuote :: "env \<Rightarrow> env" where
  "withShellQuote env =
     env \<lparr> parse := (\<lambda>s. case shellQuoteParse s of
                                Some entries \<Rightarrow> Inr entries
                              | None \<Rightarrow> parse env s) \<rparr>"

section \<open>Names for parts of the code\<close>

text \<open>
  The local variable \<^verbatim>\<open>noComments\<close> of \<^verbatim>\<open>getArgs\<close> (lines 198 to 200), as a function of
  the inputs and the argument vector.
\<close>

definition noComments :: "env \<Rightarrow> string list \<Rightarrow> bool" where
  "noComments env vector =
     (getBooleanInput env ''no-comments'' False
      \<or> (\<exists>a\<in>set vector. a \<in> flagsWithoutCommentingSupport))"

text \<open>
  The list \<^verbatim>\<open>split\<close> of \<^verbatim>\<open>getArgs\<close> (lines 165 to 172), as a function of the annotate
  input.
\<close>

definition annotateTokens :: "string \<Rightarrow> string list" where
  "annotateTokens directive =
     (let t = trim directive
      in if isAnnotateNone t then []
         else if t = [] \<or> isAnnotateAll t then split CHR '','' ''errors, warnings''
         else split CHR '','' t)"

section \<open>The words of the specification\<close>

text \<open>
  The definitions of this section follow the specification, not the code: they state
  what the code is compared with.
\<close>

definition toLowerChar :: "char \<Rightarrow> char" where
  "toLowerChar c =
     (case map_of (zip ''ABCDEFGHIJKLMNOPQRSTUVWXYZ'' ''abcdefghijklmnopqrstuvwxyz'') c of
        Some l \<Rightarrow> l
      | None \<Rightarrow> c)"

text \<open>Two strings are equal case-insensitively when their lower-case forms are equal.\<close>

definition equalsIgnoreCase :: "string \<Rightarrow> string \<Rightarrow> bool" where
  "equalsIgnoreCase a b = (map toLowerChar a = map toLowerChar b)"

text \<open>
  Precedence of semantic versions (semver.org, item 11): the major, minor and patch
  numbers are compared numerically in this order; of two versions with the same numbers
  one with a prerelease precedes one without; two prereleases are compared identifier by
  identifier, a number before a text, numbers numerically, texts in ASCII order, and a
  prerelease that is a proper prefix of the other precedes it. Build metadata is ignored.
\<close>

fun identPrecedes :: "ident \<Rightarrow> ident \<Rightarrow> bool" where
  "identPrecedes (Numeric m) (Numeric n) = (m < n)"
| "identPrecedes (Numeric m) (Alphanumeric t) = True"
| "identPrecedes (Alphanumeric s) (Numeric n) = False"
| "identPrecedes (Alphanumeric s) (Alphanumeric t) = stringLess s t"

fun prereleasePrecedes :: "ident list \<Rightarrow> ident list \<Rightarrow> bool" where
  "prereleasePrecedes [] [] = False"
| "prereleasePrecedes [] (b # bs) = True"
| "prereleasePrecedes (a # as) [] = False"
| "prereleasePrecedes (a # as) (b # bs) =
     (if a = b then prereleasePrecedes as bs else identPrecedes a b)"

definition precedes :: "SemVer \<Rightarrow> SemVer \<Rightarrow> bool" where
  "precedes a b =
     (major a < major b
      \<or> (major a = major b
         \<and> (minor a < minor b
            \<or> (minor a = minor b
               \<and> (patch a < patch b
                  \<or> (patch a = patch b
                     \<and> (if prerelease a = [] then False
                         else if prerelease b = [] then True
                         else prereleasePrecedes (prerelease a) (prerelease b))))))))"

text \<open>The version 1.1.309, as the constructor builds it.\<close>

definition v1_1_309 :: SemVer where
  "v1_1_309 = \<lparr> raw = ''1.1.309'', major = 1, minor = 1, patch = 309, prerelease = [],
                 build = [], version = ''1.1.309'' \<rparr>"

text \<open>
  The argument vector as the specification lists it. An option with a value gives its
  flag and the value when the value is not empty; a boolean option gives its flag when
  it is true, which for an input means that it equals \<^verbatim>\<open>TRUE\<close> case-insensitively.
\<close>

definition valueFlag :: "string \<Rightarrow> string \<Rightarrow> string list" where
  "valueFlag flag v = (if v \<noteq> [] then [flag, v] else [])"

definition boolFlag :: "string \<Rightarrow> bool \<Rightarrow> string list" where
  "boolFlag flag b = (if b then [flag] else [])"

definition isTrue :: "env \<Rightarrow> string \<Rightarrow> bool" where
  "isTrue env name = equalsIgnoreCase (getInput env name) ''TRUE''"

text \<open>The options from create-stub to stats, in the order of the specification.\<close>

definition optionsBeforeTypeshed :: "env \<Rightarrow> string list" where
  "optionsBeforeTypeshed env =
     valueFlag ''--createstub'' (getInput env ''create-stub'')
     @ valueFlag ''--dependencies'' (getInput env ''dependencies'')
     @ boolFlag ''--ignoreexternal'' (getInput env ''ignore-external'' \<noteq> [])
     @ valueFlag ''--level'' (getInput env ''level'')
     @ valueFlag ''--project'' (getInput env ''project'')
     @ valueFlag ''--pythonplatform'' (getInput env ''python-platform'')
     @ valueFlag ''--pythonpath'' (getInput env ''python-path'')
     @ valueFlag ''--pythonversion'' (getInput env ''python-version'')
     @ boolFlag ''--skipunannotated'' (isTrue env ''skip-unannotated'')
     @ boolFlag ''--stats'' (isTrue env ''stats'')"

text \<open>The options typeshed-path and venv-path, in one of the two spellings.\<close>

definition pathOptions :: "env \<Rightarrow> bool \<Rightarrow> string list" where
  "pathOptions env useDashedSpelling =
     valueFlag (if useDashedSpelling then ''--typeshed-path'' else ''--typeshedpath'')
       (getInput env ''typeshed-path'')
     @ valueFlag (if useDashedSpelling then ''--venv-path'' else ''--venvpath'')
         (getInput env ''venv-path'')"

text \<open>The options from verbose to the deprecated lib.\<close>

definition optionsAfterVenv :: "env \<Rightarrow> string list" where
  "optionsAfterVenv env =
     boolFlag ''--lib'' (isTrue env ''verbose'')
     @ valueFlag ''--verifytypes'' (getInput env ''verify-types'')
     @ boolFlag ''--warnings'' (isTrue env ''warnings'')
     @ boolFlag ''--lib'' (isTrue env ''lib'')"

text \<open>
  The vector: the entry point, the options in the fixed order, the tokens of
  extra-args.
\<close>

definition vectorOf :: "env \<Rightarrow> string \<Rightarrow> bool \<Rightarrow> string list \<Rightarrow> string list" where
  "vectorOf env pyrightPath useDashedSpelling tokens =
     [pathJoin env [pyrightPath, ''package'', ''index.js'']]
     @ optionsBeforeTypeshed env
     @ pathOptions env useDashedSpelling
     @ optionsAfterVenv env
     @ tokens"

text \<open>The entries of a parse that are strings, and whether all of them are.\<close>

definition isToken :: "ParseEntry \<Rightarrow> bool" where
  "isToken entry = (case entry of Token s \<Rightarrow> True | _ \<Rightarrow> False)"

fun tokensOf :: "ParseEntry list \<Rightarrow> string list" where
  "tokensOf [] = []"
| "tokensOf (Token s # entries) = s # tokensOf entries"
| "tokensOf (_ # entries) = tokensOf entries"

text \<open>The strings that extra-args adds to the vector.\<close>

definition extraTokens :: "env \<Rightarrow> string list" where
  "extraTokens env =
     (if getInput env ''extra-args'' = [] then []
      else case parse env (getInput env ''extra-args'') of
             Inl e \<Rightarrow> []
           | Inr entries \<Rightarrow> tokensOf entries)"

text \<open>The inputs whose value is put into the vector.\<close>

definition valueOptions :: "string list" where
  "valueOptions =
     [''create-stub'', ''dependencies'', ''level'', ''project'', ''python-platform'',
      ''python-path'', ''python-version'', ''typeshed-path'', ''venv-path'', ''verify-types'']"






text \<open>
  A plain word: not empty, and of characters that are neither white space, quotes,
  operators, the backslash, \<^verbatim>\<open>#\<close>, \<^verbatim>\<open>$\<close>, \<^verbatim>\<open>*\<close> nor \<^verbatim>\<open>?\<close>.
\<close>

definition isPlain :: "char \<Rightarrow> bool" where
  "isPlain c = (\<not> isWhiteSpace c
     \<and> c \<notin> set (''|&;()<>#$*?'' @ [CHR 0x22, CHR 0x27, CHR 0x5C]))"

definition plainWord :: "string \<Rightarrow> bool" where
  "plainWord w = (w \<noteq> [] \<and> list_all isPlain w)"

section \<open>An environment for the examples\<close>

text \<open>
  The inputs are those of an association list, the others are absent. The registry
  answers every request with version 1.1.400, the package is in the tool cache,
  \<^verbatim>\<open>path.join\<close> is that of a POSIX platform on segments that need no normalisation, and
  \<^verbatim>\<open>parse\<close> splits at spaces, as \<^verbatim>\<open>shell-quote\<close> does on words without quotes, operators
  or variables.
\<close>

definition exampleEnv :: "(string \<times> string) list \<Rightarrow> env" where
  "exampleEnv inputs =
     \<lparr> getInput = (\<lambda>name. case map_of inputs name of None \<Rightarrow> [] | Some v \<Rightarrow> v),
       httpGet = (\<lambda>url. Inr (200, ''{}'')),
       parseNpmRegistryResponse =
         (\<lambda>body. Inr \<lparr> npmVersion = ''1.1.400'',
                        distTarball = ''https://registry.npmjs.org/pyright/-/pyright-1.1.400.tgz'' \<rparr>),
       parsePylanceBuildMetadata = (\<lambda>body. Inr ''1.1.400''),
       tcFind = (\<lambda>tool v. ''/opt/hostedtoolcache/pyright/1.1.400/x64''),
       tcDownloadTool = (\<lambda>url. Inr ''/tmp/pyright.tgz''),
       tcExtractTar = (\<lambda>path. Inr ''/tmp/pyright''),
       tcCacheDir = (\<lambda>path tool v. Inr ''/opt/hostedtoolcache/pyright/1.1.400/x64''),
       pathJoin = join ''/'',
       parse = (\<lambda>s. Inr (map Token (filter (\<lambda>w. w \<noteq> []) (split CHR '' '' s)))) \<rparr>"

section \<open>Properties\<close>

subsection \<open>Formatting a diagnostic\<close>

lemma numberToString_digit: "n < 10 \<Longrightarrow> numberToString n = [digitChar n]"
  by (simp add: numberToString.simps)

text \<open>
  C6. A diagnostic of the file \<^verbatim>\<open>a.py\<close> with severity \<^verbatim>\<open>error\<close>, message \<^verbatim>\<open>bad\<close> and rule
  \<^verbatim>\<open>reportX\<close>: when its range is empty (start equals end), the human-log form is
  exactly \<^verbatim>\<open>a.py: error: bad (reportX)\<close>, without a position; the command-echo form is
  exactly \<^verbatim>\<open>bad (reportX)\<close>, whatever the range; when its range is not empty, the
  human-log form holds the line and the column of the start, each one more than the
  0-based number of the source, as \<^verbatim>\<open>line:column -\<close> after the file.
\<close>

theorem diagnosticToString_example:
  assumes "file' d = Some ''a.py''" and "range' d = Some r" and "severity d = ''error''"
    and "message d = ''bad''" and "rule d = Some ''reportX''"
  shows "(start r = end' r \<longrightarrow> diagnosticToString d False = ''a.py: error: bad (reportX)'')
       \<and> diagnosticToString d True = ''bad (reportX)''
       \<and> (start r \<noteq> end' r \<longrightarrow>
            diagnosticToString d False =
              ''a.py:'' @ numberToString (line (start r) + 1) @ '':''
                @ numberToString (character (start r) + 1) @ '' - error: bad (reportX)'')"
  using assms by (simp add: diagnosticToString_def truthy_def isEmptyRange_def)

theorem diagnosticToString_example_witness:
  "diagnosticToString
     \<lparr>file' = Some ''a.py'',
      range' = Some \<lparr>start = \<lparr>line = 4, character = 2\<rparr>, end' = \<lparr>line = 4, character = 2\<rparr>\<rparr>,
      severity = ''error'', message = ''bad'', rule = Some ''reportX''\<rparr> False
     = ''a.py: error: bad (reportX)''
   \<and> diagnosticToString
     \<lparr>file' = Some ''a.py'',
      range' = Some \<lparr>start = \<lparr>line = 4, character = 2\<rparr>, end' = \<lparr>line = 4, character = 2\<rparr>\<rparr>,
      severity = ''error'', message = ''bad'', rule = Some ''reportX''\<rparr> True
     = ''bad (reportX)''
   \<and> diagnosticToString
     \<lparr>file' = Some ''a.py'',
      range' = Some \<lparr>start = \<lparr>line = 4, character = 2\<rparr>, end' = \<lparr>line = 4, character = 3\<rparr>\<rparr>,
      severity = ''error'', message = ''bad'', rule = Some ''reportX''\<rparr> False
     = ''a.py:5:3 - error: bad (reportX)''"
  using diagnosticToString_example
    [of "\<lparr>file' = Some ''a.py'',
      range' = Some \<lparr>start = \<lparr>line = 4, character = 2\<rparr>, end' = \<lparr>line = 4, character = 2\<rparr>\<rparr>,
      severity = ''error'', message = ''bad'', rule = Some ''reportX''\<rparr>"
        "\<lparr>start = \<lparr>line = 4, character = 2\<rparr>, end' = \<lparr>line = 4, character = 2\<rparr>\<rparr>"]
    diagnosticToString_example
    [of "\<lparr>file' = Some ''a.py'',
      range' = Some \<lparr>start = \<lparr>line = 4, character = 2\<rparr>, end' = \<lparr>line = 4, character = 3\<rparr>\<rparr>,
      severity = ''error'', message = ''bad'', rule = Some ''reportX''\<rparr>"
        "\<lparr>start = \<lparr>line = 4, character = 2\<rparr>, end' = \<lparr>line = 4, character = 3\<rparr>\<rparr>"]
  by (simp add: numberToString_digit digitChar_def)

subsection \<open>Case-insensitive comparison\<close>

lemma toUpperChar_letters:
  "toUpperChar c = CHR ''T'' \<longleftrightarrow> c = CHR ''T'' \<or> c = CHR ''t''"
  "toUpperChar c = CHR ''R'' \<longleftrightarrow> c = CHR ''R'' \<or> c = CHR ''r''"
  "toUpperChar c = CHR ''U'' \<longleftrightarrow> c = CHR ''U'' \<or> c = CHR ''u''"
  "toUpperChar c = CHR ''E'' \<longleftrightarrow> c = CHR ''E'' \<or> c = CHR ''e''"
  "toUpperChar c = CHR ''F'' \<longleftrightarrow> c = CHR ''F'' \<or> c = CHR ''f''"
  "toUpperChar c = CHR ''A'' \<longleftrightarrow> c = CHR ''A'' \<or> c = CHR ''a''"
  "toUpperChar c = CHR ''L'' \<longleftrightarrow> c = CHR ''L'' \<or> c = CHR ''l''"
  "toUpperChar c = CHR ''S'' \<longleftrightarrow> c = CHR ''S'' \<or> c = CHR ''s''"
  by (auto simp: toUpperChar_def split: if_splits)

lemma toLowerChar_letters:
  "toLowerChar c = CHR ''t'' \<longleftrightarrow> c = CHR ''T'' \<or> c = CHR ''t''"
  "toLowerChar c = CHR ''r'' \<longleftrightarrow> c = CHR ''R'' \<or> c = CHR ''r''"
  "toLowerChar c = CHR ''u'' \<longleftrightarrow> c = CHR ''U'' \<or> c = CHR ''u''"
  "toLowerChar c = CHR ''e'' \<longleftrightarrow> c = CHR ''E'' \<or> c = CHR ''e''"
  "toLowerChar c = CHR ''f'' \<longleftrightarrow> c = CHR ''F'' \<or> c = CHR ''f''"
  "toLowerChar c = CHR ''a'' \<longleftrightarrow> c = CHR ''A'' \<or> c = CHR ''a''"
  "toLowerChar c = CHR ''l'' \<longleftrightarrow> c = CHR ''L'' \<or> c = CHR ''l''"
  "toLowerChar c = CHR ''s'' \<longleftrightarrow> c = CHR ''S'' \<or> c = CHR ''s''"
  by (auto simp: toLowerChar_def split: if_splits)

lemma toLowerChar_words:
  "map toLowerChar ''TRUE'' = ''true''" "map toLowerChar ''FALSE'' = ''false''"
  "map toLowerChar ''true'' = ''true''" "map toLowerChar ''false'' = ''false''"
  by (simp_all add: toLowerChar_def)

lemma toUpperCase_TRUE: "toUpperCase s = ''TRUE'' \<longleftrightarrow> equalsIgnoreCase s ''TRUE''"
  unfolding toUpperCase_def equalsIgnoreCase_def toLowerChar_words
  by (simp add: map_eq_Cons_conv toUpperChar_letters toLowerChar_letters)

lemma toUpperCase_FALSE: "toUpperCase s = ''FALSE'' \<longleftrightarrow> equalsIgnoreCase s ''FALSE''"
  unfolding toUpperCase_def equalsIgnoreCase_def toLowerChar_words
  by (simp add: map_eq_Cons_conv toUpperChar_letters toLowerChar_letters)

lemma equalsIgnoreCase_lower:
  "equalsIgnoreCase s ''true'' = equalsIgnoreCase s ''TRUE''"
  "equalsIgnoreCase s ''false'' = equalsIgnoreCase s ''FALSE''"
  by (simp_all add: equalsIgnoreCase_def toLowerChar_def)

subsection \<open>Boolean inputs\<close>

text \<open>
  C8. A boolean input is read as true exactly when it is not empty and equals \<^verbatim>\<open>TRUE\<close>
  case-insensitively; an empty (absent) input gives the default, and the default the
  builder passes at each of its reads is false; an input that equals \<^verbatim>\<open>FALSE\<close>
  case-insensitively is read as false whatever the default.
\<close>

theorem getBooleanInput_TRUE:
  "getBooleanInput env name defaultValue =
     (if getInput env name = [] then defaultValue
      else equalsIgnoreCase (getInput env name) ''TRUE'')
   \<and> getBooleanInput env name False =
       (getInput env name \<noteq> [] \<and> equalsIgnoreCase (getInput env name) ''TRUE'')
   \<and> (equalsIgnoreCase (getInput env name) ''FALSE'' \<longrightarrow> \<not> getBooleanInput env name defaultValue)"
  by (auto simp: getBooleanInput_def Let_def toUpperCase_TRUE equalsIgnoreCase_def
        toLowerChar_def)

theorem getBooleanInput_TRUE_witness:
  "getBooleanInput (exampleEnv [(''stats'', ''True'')]) ''stats'' False
   \<and> \<not> getBooleanInput (exampleEnv [(''stats'', ''FALSE'')]) ''stats'' True
   \<and> \<not> getBooleanInput (exampleEnv [(''stats'', ''yes'')]) ''stats'' True
   \<and> \<not> getBooleanInput (exampleEnv []) ''stats'' False"
  using getBooleanInput_TRUE [of "exampleEnv [(''stats'', ''True'')]" "''stats''" False]
    getBooleanInput_TRUE [of "exampleEnv [(''stats'', ''FALSE'')]" "''stats''" True]
    getBooleanInput_TRUE [of "exampleEnv [(''stats'', ''yes'')]" "''stats''" True]
    getBooleanInput_TRUE [of "exampleEnv []" "''stats''" False]
  by (simp add: exampleEnv_def equalsIgnoreCase_def toLowerChar_def)

subsection \<open>The annotation set\<close>

lemma annotateLoop_subset:
  "annotateLoop vs A = Inr s \<Longrightarrow> s \<subseteq> A \<union> {''error'', ''warning''}"
  by (induction vs arbitrary: A) (auto simp: Let_def split: if_splits)

lemma annotateLoop_invalid:
  "\<exists>v\<in>set vs. trim v \<noteq> ''errors'' \<and> trim v \<noteq> ''warnings''
   \<Longrightarrow> \<exists>msg. annotateLoop vs A = Inl (InvalidAnnotateValue msg)"
  by (induction vs arbitrary: A) (auto simp: Let_def)

lemma annotateLoop_valid:
  "\<forall>v\<in>set vs. trim v = ''errors'' \<or> trim v = ''warnings''
   \<Longrightarrow> \<exists>s. annotateLoop vs A = Inr s"
  by (induction vs arbitrary: A) (auto simp: Let_def)

lemma annotateLoop_error:
  "annotateLoop vs A = Inl e \<Longrightarrow> \<exists>msg. e = InvalidAnnotateValue msg"
  by (induction vs arbitrary: A) (auto simp: Let_def split: if_splits)

lemma annotateLoop_all:
  "annotateLoop (split CHR '','' ''errors, warnings'') {} = Inr {''error'', ''warning''}"
  by (simp add: trim_def isWhiteSpace_def insert_commute)

lemma isAnnotate_words:
  "\<not> isAnnotateNone ''all''" "isAnnotateAll ''all''" "isAnnotateNone ''none''"
  "\<not> isAnnotateNone []" "\<not> isAnnotateAll []"
  by (simp_all add: isAnnotateNone_def isAnnotateAll_def toUpperCase_def toUpperChar_def)

lemma isAnnotateNone_iff: "isAnnotateNone t \<longleftrightarrow> t = ''none'' \<or> equalsIgnoreCase t ''false''"
  by (simp add: isAnnotateNone_def toUpperCase_FALSE equalsIgnoreCase_lower)

lemma isAnnotateAll_iff: "isAnnotateAll t \<longleftrightarrow> t = ''all'' \<or> equalsIgnoreCase t ''true''"
  by (simp add: isAnnotateAll_def toUpperCase_TRUE equalsIgnoreCase_lower)

lemma isAnnotateAll_not_None: "isAnnotateAll t \<Longrightarrow> \<not> isAnnotateNone t"
  by (auto simp: isAnnotateAll_iff isAnnotateNone_iff equalsIgnoreCase_def toLowerChar_def)

lemma getArgs_annotate_tokens:
  "getArgs_annotate env vector =
     (case annotateLoop (annotateTokens (getInput env ''annotate'')) {} of
        Inl e \<Rightarrow> Inl e
      | Inr s \<Rightarrow> Inr (if noComments env vector then {} else s))"
proof -
  let ?t = "trim (getInput env ''annotate'')"
  consider (none) "isAnnotateNone ?t"
    | (all) "\<not> isAnnotateNone ?t" "?t = [] \<or> isAnnotateAll ?t"
    | (list) "\<not> isAnnotateNone ?t" "?t \<noteq> []" "\<not> isAnnotateAll ?t"
    by blast
  then show ?thesis
  proof cases
    case none
    then have "?t \<noteq> []" using isAnnotate_words(4) by auto
    with none show ?thesis
      by (simp add: getArgs_annotate_def annotateTokens_def noComments_def list_ex_iff Let_def
            del: split.simps)
  next
    case all
    then show ?thesis
      by (auto simp add: getArgs_annotate_def annotateTokens_def noComments_def list_ex_iff
            isAnnotate_words Let_def
            simp del: split.simps annotateLoop.simps split: sum.splits)
  next
    case list
    then show ?thesis
      by (auto simp add: getArgs_annotate_def annotateTokens_def noComments_def list_ex_iff
            Let_def
            simp del: split.simps annotateLoop.simps split: sum.splits)
  qed
qed

lemma getArgs_InrD:
  assumes "getArgs env = (Inr r, tr)"
  shows "\<exists>info path t1 t2.
           getPyrightInfo env = (Inr info, t1) \<and> downloadPyright env info = (Inr path, t2)
           \<and> getArgs_args env (npmVersion info) path = Inr (args r)
           \<and> getArgs_annotate env (args r) = Inr (annotate r)
           \<and> pyrightVersion r = npmVersion info"
proof -
  obtain info t1 where info: "getPyrightInfo env = (Inr info, t1)"
    using assms by (auto simp: getArgs_def andThen_def split: prod.splits sum.splits)
  obtain path t2 where path: "downloadPyright env info = (Inr path, t2)"
    using assms info by (auto simp: getArgs_def andThen_def split: prod.splits sum.splits)
  have "getArgs_args env (npmVersion info) path = Inr (args r)
        \<and> getArgs_annotate env (args r) = Inr (annotate r)
        \<and> pyrightVersion r = npmVersion info"
    using assms info path
    by (auto simp: getArgs_def andThen_def split: prod.splits sum.splits)
  with info path show ?thesis by blast
qed

text \<open>
  C2, as amended. When the annotate input, trimmed, is \<^verbatim>\<open>none\<close> exactly or equals \<^verbatim>\<open>false\<close>
  case-insensitively, the annotation set is empty. When it is empty, is \<^verbatim>\<open>all\<close> exactly
  or equals \<^verbatim>\<open>true\<close> case-insensitively, and the no-comments override does not apply, the
  set is {error, warning}.
\<close>

theorem annotate_sentinels:
  "(trim (getInput env ''annotate'') = ''none''
      \<or> equalsIgnoreCase (trim (getInput env ''annotate'')) ''false''
    \<longrightarrow> getArgs_annotate env vector = Inr {})
   \<and> ((trim (getInput env ''annotate'') = []
        \<or> trim (getInput env ''annotate'') = ''all''
        \<or> equalsIgnoreCase (trim (getInput env ''annotate'')) ''true'')
       \<and> \<not> noComments env vector
    \<longrightarrow> getArgs_annotate env vector = Inr {''error'', ''warning''})"
proof -
  let ?t = "trim (getInput env ''annotate'')"
  have none: "getArgs_annotate env vector = Inr {}" if "isAnnotateNone ?t"
    using that by (simp add: getArgs_annotate_tokens annotateTokens_def del: split.simps)
  have all: "getArgs_annotate env vector = Inr {''error'', ''warning''}"
    if "?t = [] \<or> isAnnotateAll ?t" "\<not> noComments env vector"
  proof -
    have "\<not> isAnnotateNone ?t"
      using that(1) isAnnotateAll_not_None isAnnotate_words(4) by auto
    with that show ?thesis
      by (simp add: getArgs_annotate_tokens annotateTokens_def annotateLoop_all
            del: split.simps annotateLoop.simps)
  qed
  show ?thesis
    using none all unfolding isAnnotateNone_iff isAnnotateAll_iff by blast
qed

theorem annotate_sentinels_witness:
  "getArgs_annotate (exampleEnv [(''annotate'', '' False '')]) [''index.js''] = Inr {}
   \<and> getArgs_annotate (exampleEnv [(''annotate'', ''none'')]) [''index.js''] = Inr {}
   \<and> getArgs_annotate (exampleEnv [(''annotate'', ''TRUE'')]) [''index.js'']
       = Inr {''error'', ''warning''}
   \<and> getArgs_annotate (exampleEnv []) [''index.js''] = Inr {''error'', ''warning''}"
  using annotate_sentinels [of "exampleEnv [(''annotate'', '' False '')]" "[''index.js'']"]
    annotate_sentinels [of "exampleEnv [(''annotate'', ''none'')]" "[''index.js'']"]
    annotate_sentinels [of "exampleEnv [(''annotate'', ''TRUE'')]" "[''index.js'']"]
    annotate_sentinels [of "exampleEnv []" "[''index.js'']"]
  by (simp add: exampleEnv_def trim_def isWhiteSpace_def equalsIgnoreCase_def toLowerChar_def
        noComments_def getBooleanInput_def flagsWithoutCommentingSupport_def)

text \<open>
  The claim C2 as stated fails: \<^verbatim>\<open>NONE\<close> equals \<^verbatim>\<open>none\<close> case-insensitively and \<^verbatim>\<open>ALL\<close>
  equals \<^verbatim>\<open>all\<close>, and both are rejected as invalid values.
\<close>

theorem annotate_sentinels_counterexample:
  "equalsIgnoreCase (trim ''NONE'') ''none''
   \<and> getArgs_annotate (exampleEnv [(''annotate'', ''NONE'')]) [''index.js'']
       = Inl (InvalidAnnotateValue
                (''invalid value '' @ [CHR 0x22] @ ''NONE'' @ [CHR 0x22] @ '' for annotate''))
   \<and> equalsIgnoreCase (trim ''ALL'') ''all''
   \<and> \<not> noComments (exampleEnv [(''annotate'', ''ALL'')]) [''index.js'']
   \<and> getArgs_annotate (exampleEnv [(''annotate'', ''ALL'')]) [''index.js'']
       = Inl (InvalidAnnotateValue
                (''invalid value '' @ [CHR 0x22] @ ''ALL'' @ [CHR 0x22] @ '' for annotate''))"
  by (simp add: exampleEnv_def trim_def isWhiteSpace_def equalsIgnoreCase_def toLowerChar_def
        noComments_def getBooleanInput_def flagsWithoutCommentingSupport_def
        getArgs_annotate_def isAnnotateNone_def isAnnotateAll_def toUpperCase_def
        toUpperChar_def JSON_stringify_def quoteJSONChar_def)

lemma subset_pair: "s \<subseteq> {a, b} \<Longrightarrow> s = {} \<or> s = {a} \<or> s = {b} \<or> s = {a, b}"
  by blast

text \<open>
  C9. Whenever the annotation set is returned, it is one of the empty set, {error},
  {warning} and {error, warning}; this holds for the result of \<^verbatim>\<open>getArgs\<close> as well. When
  the trimmed annotate input is not empty and is no sentinel, it is split at commas, and
  if one of the pieces, trimmed, is neither \<^verbatim>\<open>errors\<close> nor \<^verbatim>\<open>warnings\<close> then the result
  is an invalid-value error; if all of them are, a set is returned.
\<close>

theorem annotate_invariant:
  "(\<forall>s. getArgs_annotate env vector = Inr s \<longrightarrow>
        s = {} \<or> s = {''error''} \<or> s = {''warning''} \<or> s = {''error'', ''warning''})
   \<and> (\<forall>r tr. getArgs env = (Inr r, tr) \<longrightarrow>
        annotate r = {} \<or> annotate r = {''error''} \<or> annotate r = {''warning''}
        \<or> annotate r = {''error'', ''warning''})
   \<and> (trim (getInput env ''annotate'') \<noteq> []
        \<and> \<not> isAnnotateNone (trim (getInput env ''annotate''))
        \<and> \<not> isAnnotateAll (trim (getInput env ''annotate''))
      \<longrightarrow> ((\<exists>v\<in>set (split CHR '','' (trim (getInput env ''annotate''))).
                trim v \<noteq> ''errors'' \<and> trim v \<noteq> ''warnings'')
            \<longrightarrow> (\<exists>msg. getArgs_annotate env vector = Inl (InvalidAnnotateValue msg)))
          \<and> ((\<forall>v\<in>set (split CHR '','' (trim (getInput env ''annotate''))).
                trim v = ''errors'' \<or> trim v = ''warnings'')
            \<longrightarrow> (\<exists>s. getArgs_annotate env vector = Inr s)))"
proof -
  let ?t = "trim (getInput env ''annotate'')"
  have four: "s = {} \<or> s = {''error''} \<or> s = {''warning''} \<or> s = {''error'', ''warning''}"
    if "getArgs_annotate env w = Inr s" for w s
  proof -
    have "(case annotateLoop (annotateTokens (getInput env ''annotate'')) {} of
             Inl e \<Rightarrow> Inl e
           | Inr s' \<Rightarrow> Inr (if noComments env w then {} else s')) = Inr s"
      using that by (simp only: getArgs_annotate_tokens)
    then obtain s' where s': "annotateLoop (annotateTokens (getInput env ''annotate'')) {} = Inr s'"
      and s: "s = (if noComments env w then {} else s')"
      by (cases "annotateLoop (annotateTokens (getInput env ''annotate'')) {}") auto
    have "s' \<subseteq> {''error'', ''warning''}"
      using annotateLoop_subset [OF s'] by simp
    then have "s \<subseteq> {''error'', ''warning''}"
      using s by (simp split: if_splits)
    then show ?thesis by (rule subset_pair)
  qed
  have whole: "annotate r = {} \<or> annotate r = {''error''} \<or> annotate r = {''warning''}
        \<or> annotate r = {''error'', ''warning''}" if "getArgs env = (Inr r, tr)" for r tr
  proof -
    have "getArgs_annotate env (args r) = Inr (annotate r)"
      using getArgs_InrD [OF that] by blast
    then show ?thesis by (rule four)
  qed
  have list: "annotateTokens (getInput env ''annotate'') = split CHR '','' ?t"
    if "?t \<noteq> []" "\<not> isAnnotateNone ?t" "\<not> isAnnotateAll ?t"
    using that by (simp add: annotateTokens_def del: split.simps)
  have bad: "\<exists>msg. getArgs_annotate env vector = Inl (InvalidAnnotateValue msg)"
    if t: "?t \<noteq> []" "\<not> isAnnotateNone ?t" "\<not> isAnnotateAll ?t"
      and v: "\<exists>v\<in>set (split CHR '','' ?t). trim v \<noteq> ''errors'' \<and> trim v \<noteq> ''warnings''"
  proof -
    obtain msg where "annotateLoop (split CHR '','' ?t) {} = Inl (InvalidAnnotateValue msg)"
      using annotateLoop_invalid [OF v] by blast
    then show ?thesis
      unfolding getArgs_annotate_tokens list [OF t] by simp
  qed
  have good: "\<exists>s. getArgs_annotate env vector = Inr s"
    if t: "?t \<noteq> []" "\<not> isAnnotateNone ?t" "\<not> isAnnotateAll ?t"
      and v: "\<forall>v\<in>set (split CHR '','' ?t). trim v = ''errors'' \<or> trim v = ''warnings''"
  proof -
    obtain s where "annotateLoop (split CHR '','' ?t) {} = Inr s"
      using annotateLoop_valid [OF v] by blast
    then show ?thesis
      unfolding getArgs_annotate_tokens list [OF t] by simp
  qed
  show ?thesis
  proof (intro conjI allI impI)
    fix s assume "getArgs_annotate env vector = Inr s"
    then show "s = {} \<or> s = {''error''} \<or> s = {''warning''} \<or> s = {''error'', ''warning''}"
      by (rule four)
  next
    fix r tr assume "getArgs env = (Inr r, tr)"
    then show "annotate r = {} \<or> annotate r = {''error''} \<or> annotate r = {''warning''}
        \<or> annotate r = {''error'', ''warning''}"
      by (rule whole)
  next
    assume "?t \<noteq> [] \<and> \<not> isAnnotateNone ?t \<and> \<not> isAnnotateAll ?t"
      and "\<exists>v\<in>set (split CHR '','' ?t). trim v \<noteq> ''errors'' \<and> trim v \<noteq> ''warnings''"
    then show "\<exists>msg. getArgs_annotate env vector = Inl (InvalidAnnotateValue msg)"
      using bad by simp
  next
    assume "?t \<noteq> [] \<and> \<not> isAnnotateNone ?t \<and> \<not> isAnnotateAll ?t"
      and "\<forall>v\<in>set (split CHR '','' ?t). trim v = ''errors'' \<or> trim v = ''warnings''"
    then show "\<exists>s. getArgs_annotate env vector = Inr s"
      using good by simp
  qed
qed

theorem annotate_invariant_witness:
  "getArgs_annotate (exampleEnv [(''annotate'', ''warnings , errors'')]) [''index.js'']
     = Inr {''error'', ''warning''}
   \<and> getArgs_annotate (exampleEnv [(''annotate'', ''errors'')]) [''index.js''] = Inr {''error''}
   \<and> getArgs_annotate (exampleEnv [(''annotate'', ''errors,all'')]) [''index.js'']
     = Inl (InvalidAnnotateValue
              (''invalid value '' @ [CHR 0x22] @ ''all'' @ [CHR 0x22]
                 @ '' in comma-separated annotate''))
   \<and> getArgs_annotate (exampleEnv [(''annotate'', ''error'')]) [''index.js'']
     = Inl (InvalidAnnotateValue
              (''invalid value '' @ [CHR 0x22] @ ''error'' @ [CHR 0x22] @ '' for annotate''))"
  using annotate_invariant [of "exampleEnv [(''annotate'', ''warnings , errors'')]" "[''index.js'']"]
    annotate_invariant [of "exampleEnv [(''annotate'', ''errors,all'')]" "[''index.js'']"]
  by (simp add: exampleEnv_def trim_def isWhiteSpace_def
        getBooleanInput_def flagsWithoutCommentingSupport_def insert_commute
        getArgs_annotate_def isAnnotateNone_def isAnnotateAll_def toUpperCase_def
        toUpperChar_def JSON_stringify_def quoteJSONChar_def)

lemma getArgs_annotate_override:
  assumes "noComments env vector"
  shows "getArgs_annotate env vector =
           (case annotateLoop (annotateTokens (getInput env ''annotate'')) {} of
              Inl e \<Rightarrow> Inl e
            | Inr s \<Rightarrow> Inr {})"
  using assms by (simp add: getArgs_annotate_tokens split: sum.splits)

lemma annotateTokens_valid:
  assumes "trim d = [] \<or> isAnnotateNone (trim d) \<or> isAnnotateAll (trim d)
           \<or> (\<forall>v\<in>set (split CHR '','' (trim d)). trim v = ''errors'' \<or> trim v = ''warnings'')"
  shows "\<forall>v\<in>set (annotateTokens d). trim v = ''errors'' \<or> trim v = ''warnings''"
proof -
  have "\<forall>v\<in>set (split CHR '','' ''errors, warnings''). trim v = ''errors'' \<or> trim v = ''warnings''"
    by (simp add: trim_def isWhiteSpace_def)
  with assms show ?thesis
    by (auto simp add: annotateTokens_def Let_def simp del: split.simps)
qed

text \<open>
  C3. When the no-comments input is true, or the argument vector has an element among
  \<^verbatim>\<open>--verifytypes\<close>, \<^verbatim>\<open>--stats\<close>, \<^verbatim>\<open>--verbose\<close>, \<^verbatim>\<open>--createstub\<close> and \<^verbatim>\<open>--dependencies\<close>, every
  annotation set that is returned is empty, whatever the annotate input: the outcome is
  the empty set, or the invalid-value error of an annotate input that is rejected before
  the override is reached, and it is the empty set for every annotate input that is
  accepted. The same holds for the result of \<^verbatim>\<open>getArgs\<close> and its own argument vector.
\<close>

theorem noComments_override:
  "(getBooleanInput env ''no-comments'' False
      \<or> (\<exists>a\<in>set vector. a \<in> {''--verifytypes'', ''--stats'', ''--verbose'', ''--createstub'',
                               ''--dependencies''})
    \<longrightarrow> (\<forall>s. getArgs_annotate env vector = Inr s \<longrightarrow> s = {})
        \<and> (getArgs_annotate env vector = Inr {}
            \<or> (\<exists>msg. getArgs_annotate env vector = Inl (InvalidAnnotateValue msg)))
        \<and> (trim (getInput env ''annotate'') = []
              \<or> isAnnotateNone (trim (getInput env ''annotate''))
              \<or> isAnnotateAll (trim (getInput env ''annotate''))
              \<or> (\<forall>v\<in>set (split CHR '','' (trim (getInput env ''annotate''))).
                    trim v = ''errors'' \<or> trim v = ''warnings'')
            \<longrightarrow> getArgs_annotate env vector = Inr {}))
   \<and> (\<forall>r tr. getArgs env = (Inr r, tr)
          \<and> (getBooleanInput env ''no-comments'' False
               \<or> (\<exists>a\<in>set (args r). a \<in> {''--verifytypes'', ''--stats'', ''--verbose'',
                                         ''--createstub'', ''--dependencies''}))
        \<longrightarrow> annotate r = {})"
proof -
  let ?loop = "annotateLoop (annotateTokens (getInput env ''annotate'')) {}"
  have stage: "(\<forall>s. getArgs_annotate env w = Inr s \<longrightarrow> s = {})
        \<and> (getArgs_annotate env w = Inr {}
            \<or> (\<exists>msg. getArgs_annotate env w = Inl (InvalidAnnotateValue msg)))"
    if "noComments env w" for w
  proof (cases ?loop)
    case (Inl e)
    then obtain msg where "e = InvalidAnnotateValue msg"
      using annotateLoop_error by blast
    with Inl show ?thesis
      by (simp add: getArgs_annotate_override [OF that])
  next
    case (Inr s)
    then show ?thesis
      by (simp add: getArgs_annotate_override [OF that])
  qed
  have valid: "getArgs_annotate env w = Inr {}"
    if nc: "noComments env w"
      and ok: "trim (getInput env ''annotate'') = []
              \<or> isAnnotateNone (trim (getInput env ''annotate''))
              \<or> isAnnotateAll (trim (getInput env ''annotate''))
              \<or> (\<forall>v\<in>set (split CHR '','' (trim (getInput env ''annotate''))).
                    trim v = ''errors'' \<or> trim v = ''warnings'')" for w
  proof -
    obtain s where "?loop = Inr s"
      using annotateLoop_valid [OF annotateTokens_valid [OF ok]] by blast
    then show ?thesis
      by (simp add: getArgs_annotate_override [OF nc])
  qed
  have whole: "annotate r = {}"
    if res: "getArgs env = (Inr r, tr)" and nc: "noComments env (args r)" for r tr
  proof -
    have "getArgs_annotate env (args r) = Inr (annotate r)"
      using getArgs_InrD [OF res] by blast
    then show ?thesis
      using stage [OF nc] by simp
  qed
  show ?thesis
    unfolding noComments_def [symmetric, unfolded flagsWithoutCommentingSupport_def]
    using stage valid whole by blast
qed

theorem noComments_override_witness:
  "getArgs_annotate (exampleEnv [(''annotate'', ''all'')]) [''index.js'', ''--stats''] = Inr {}
   \<and> getArgs_annotate (exampleEnv [(''annotate'', ''warnings''), (''no-comments'', ''true'')])
       [''index.js''] = Inr {}
   \<and> getArgs_annotate (exampleEnv [(''annotate'', ''all'')]) [''index.js'']
       = Inr {''error'', ''warning''}"
  using noComments_override
    [of "exampleEnv [(''annotate'', ''all'')]" "[''index.js'', ''--stats'']"]
    noComments_override
    [of "exampleEnv [(''annotate'', ''warnings''), (''no-comments'', ''true'')]" "[''index.js'']"]
  by (simp add: exampleEnv_def trim_def isWhiteSpace_def
        getBooleanInput_def flagsWithoutCommentingSupport_def insert_commute
        getArgs_annotate_def isAnnotateNone_def isAnnotateAll_def toUpperCase_def
        toUpperChar_def)

subsection \<open>Version numbers\<close>

lemma digit_cases:
  "d < (10::nat) \<Longrightarrow>
     d = 0 \<or> d = 1 \<or> d = 2 \<or> d = 3 \<or> d = 4 \<or> d = 5 \<or> d = 6 \<or> d = 7 \<or> d = 8 \<or> d = 9"
  by arith

lemma isDigit_digitChar: "d < 10 \<Longrightarrow> isDigit (digitChar d)"
  by (drule digit_cases) (auto simp: isDigit_def digitChar_def)

lemma digitValue_digitChar: "d < 10 \<Longrightarrow> digitValue (digitChar d) = d"
  by (drule digit_cases) (auto simp: digitValue_def digitChar_def)

lemma numberToString_digits: "list_all isDigit (numberToString n) \<and> numberToString n \<noteq> []"
proof (induction n rule: numberToString.induct)
  case (1 n)
  show ?case
  proof (cases "n < 10")
    case True
    then show ?thesis
      by (simp add: numberToString_digit isDigit_digitChar)
  next
    case False
    then have "numberToString n = numberToString (n div 10) @ [digitChar (n mod 10)]"
      by (subst numberToString.simps) simp
    with 1 False show ?thesis
      by (simp add: isDigit_digitChar)
  qed
qed

lemma digitsValue_snoc: "digitsValue (s @ [c]) = 10 * digitsValue s + digitValue c"
  by (simp add: digitsValue_def)

lemma digitsValue_numberToString: "digitsValue (numberToString n) = n"
proof (induction n rule: numberToString.induct)
  case (1 n)
  show ?case
  proof (cases "n < 10")
    case True
    then show ?thesis
      by (simp add: numberToString_digit digitsValue_def digitValue_digitChar)
  next
    case False
    then have "numberToString n = numberToString (n div 10) @ [digitChar (n mod 10)]"
      by (subst numberToString.simps) simp
    with 1 False show ?thesis
      by (simp add: digitsValue_snoc digitValue_digitChar)
  qed
qed

lemma takeWhile_digits:
  assumes "list_all isDigit a" and "rest = [] \<or> \<not> isDigit (hd rest)"
  shows "takeWhile isDigit (a @ rest) = a" and "dropWhile isDigit (a @ rest) = rest"
proof -
  have "takeWhile isDigit rest = []" and "dropWhile isDigit rest = rest"
    using assms(2) by (cases rest; auto)+
  with assms(1) show "takeWhile isDigit (a @ rest) = a"
    and "dropWhile isDigit (a @ rest) = rest"
    by (induction a) auto
qed

lemma format_1_1_309:
  assumes "format sv = ''1.1.309''"
  shows "major sv = 1 \<and> minor sv = 1 \<and> patch sv = 309 \<and> prerelease sv = []"
proof -
  let ?suffix = "if prerelease sv \<noteq> []
                 then ''-'' @ join ''.'' (map identifierToString (prerelease sv)) else []"
  let ?r3 = "numberToString (patch sv) @ ?suffix"
  let ?r2 = "numberToString (minor sv) @ ''.'' @ ?r3"
  have nd: "\<not> isDigit CHR ''.''" "\<not> isDigit CHR ''-''"
    by (simp_all add: isDigit_def)
  have f: "numberToString (major sv) @ ''.'' @ ?r2 = ''1.1.309''"
    using assms by (simp add: format_def)
  have "takeWhile isDigit (numberToString (major sv) @ ''.'' @ ?r2) = numberToString (major sv)"
    by (rule takeWhile_digits; simp add: numberToString_digits nd)
  then have m1: "numberToString (major sv) = ''1''"
    unfolding f by (simp add: isDigit_def)
  have "dropWhile isDigit (numberToString (major sv) @ ''.'' @ ?r2) = ''.'' @ ?r2"
    by (rule takeWhile_digits; simp add: numberToString_digits nd)
  then have r2: "?r2 = ''1.309''"
    unfolding f by (simp add: isDigit_def)
  have "takeWhile isDigit (numberToString (minor sv) @ ''.'' @ ?r3) = numberToString (minor sv)"
    by (rule takeWhile_digits; simp add: numberToString_digits nd)
  then have m2: "numberToString (minor sv) = ''1''"
    unfolding r2 by (simp add: isDigit_def)
  have "dropWhile isDigit (numberToString (minor sv) @ ''.'' @ ?r3) = ''.'' @ ?r3"
    by (rule takeWhile_digits; simp add: numberToString_digits nd)
  then have r3: "?r3 = ''309''"
    unfolding r2 by (simp add: isDigit_def)
  have "takeWhile isDigit (numberToString (patch sv) @ ?suffix) = numberToString (patch sv)"
    by (rule takeWhile_digits; simp add: numberToString_digits nd)
  then have m3: "numberToString (patch sv) = ''309''"
    unfolding r3 by (simp add: isDigit_def)
  have "dropWhile isDigit (numberToString (patch sv) @ ?suffix) = ?suffix"
    by (rule takeWhile_digits; simp add: numberToString_digits nd)
  then have s: "?suffix = []"
    unfolding r3 by (simp add: isDigit_def)
  have "major sv = digitsValue ''1''" "minor sv = digitsValue ''1''"
    "patch sv = digitsValue ''309''"
    using m1 m2 m3 digitsValue_numberToString by metis+
  moreover have "prerelease sv = []"
    using s by (simp split: if_splits)
  ultimately show ?thesis
    by (simp add: digitsValue_def digitValue_def)
qed

lemma newSemVer_version: "newSemVer s = Inr sv \<Longrightarrow> version sv = format sv"
  by (auto simp: newSemVer_def format_def Let_def split: if_splits option.splits prod.splits)

lemma newSemVer_1_1_309: "newSemVer ''1.1.309'' = Inr v1_1_309"
  by (simp add: newSemVer_def MAX_LENGTH_def trim_def isWhiteSpace_def matchFull_def
        breakAt_def numericIdentifier_def isDigit_def toNumber_def digitsValue_def
        digitValue_def roundToDouble_def MAX_SAFE_INTEGER_def format_def
        numberToString.simps digitChar_def v1_1_309_def)

lemma compareIdentifiers_Numeric:
  "compareIdentifiers (Numeric m) (Numeric n) = (if m = n then 0 else if m < n then - 1 else 1)"
  by (simp add: compareIdentifiers_def numericTest_def identifierNumber_def)

lemma compare_1_1_309:
  assumes "version sv = format sv"
  shows "\<exists>c. compare sv ''1.1.309'' = Inr c \<and> (c = - 1 \<longleftrightarrow> precedes sv v1_1_309)"
proof (cases "version sv = ''1.1.309''")
  case True
  then have "major sv = 1 \<and> minor sv = 1 \<and> patch sv = 309 \<and> prerelease sv = []"
    using assms format_1_1_309 by simp
  then have "\<not> precedes sv v1_1_309"
    by (simp add: precedes_def v1_1_309_def)
  moreover have "compare sv ''1.1.309'' = Inr 0"
    using True by (simp add: compare_def)
  ultimately show ?thesis by simp
next
  case False
  have vv: "version v1_1_309 = ''1.1.309''"
    by (simp add: v1_1_309_def)
  from False have "compare sv ''1.1.309'' =
      Inr (let c = compareMain sv v1_1_309 in if c \<noteq> 0 then c else comparePre sv v1_1_309)"
    by (simp add: compare_def newSemVer_1_1_309 vv Let_def)
  moreover have "(let c = compareMain sv v1_1_309
                  in if c \<noteq> 0 then c else comparePre sv v1_1_309) = - 1
                 \<longleftrightarrow> precedes sv v1_1_309"
    by (auto simp add: compareMain_def comparePre_def compareIdentifiers_Numeric precedes_def
          v1_1_309_def Let_def)
  ultimately show ?thesis by simp
qed

subsection \<open>The argument vector\<close>

lemma getBooleanInput_False: "getBooleanInput env name False = isTrue env name"
  by (auto simp: getBooleanInput_def isTrue_def Let_def toUpperCase_TRUE equalsIgnoreCase_def
        toLowerChar_def)

lemma pushExtraArgs_eq:
  "pushExtraArgs extraArgs entries vector =
     (if list_all isToken entries then Inr (vector @ tokensOf entries)
      else Inl (MalformedArgs (''malformed extra-args: '' @ extraArgs)))"
proof (induction entries arbitrary: vector)
  case Nil
  show ?case by simp
next
  case (Cons entry entries)
  show ?case
    by (cases entry) (simp_all add: Cons.IH isToken_def)
qed

lemma if_append: "(if b then xs @ ys else xs) = xs @ (if b then ys else [])"
  by simp

lemma getArgs_args_closed:
  assumes "newSemVer infoVersion = Inr sv"
  shows "getArgs_args env infoVersion pyrightPath =
     (if getInput env ''extra-args'' = []
      then Inr (vectorOf env pyrightPath (precedes sv v1_1_309) [])
      else case parse env (getInput env ''extra-args'') of
             Inl e \<Rightarrow> Inl e
           | Inr entries \<Rightarrow>
               if list_all isToken entries
               then Inr (vectorOf env pyrightPath (precedes sv v1_1_309) (tokensOf entries))
               else Inl (MalformedArgs (''malformed extra-args: ''
                                          @ getInput env ''extra-args'')))"
proof -
  obtain c where c: "compare sv ''1.1.309'' = Inr c"
    and dashed: "(c = - 1) = precedes sv v1_1_309"
    using compare_1_1_309 [OF newSemVer_version [OF assms]] by blast
  have "getArgs_args env infoVersion pyrightPath =
     (let vector = vectorOf env pyrightPath (precedes sv v1_1_309) []
      in if getInput env ''extra-args'' \<noteq> []
         then (case parse env (getInput env ''extra-args'') of
                 Inl e \<Rightarrow> Inl e
               | Inr entries \<Rightarrow> pushExtraArgs (getInput env ''extra-args'') entries vector)
         else Inr vector)"
    unfolding getArgs_args_def assms c sum.case dashed getBooleanInput_False
    apply (simp only: if_append)
    apply (simp only: Let_def)
    apply (simp only: vectorOf_def optionsBeforeTypeshed_def pathOptions_def
        optionsAfterVenv_def valueFlag_def boolFlag_def append_assoc append_Nil2 not_not)
    done
  then show ?thesis
    by (simp add: Let_def pushExtraArgs_eq vectorOf_def split: sum.splits)
qed

lemma getArgs_args_InrD:
  assumes "getArgs_args env infoVersion pyrightPath = Inr vector"
  shows "\<exists>sv. newSemVer infoVersion = Inr sv
           \<and> vector = vectorOf env pyrightPath (precedes sv v1_1_309) (extraTokens env)"
proof (cases "newSemVer infoVersion")
  case (Inl e)
  then show ?thesis
    using assms by (simp add: getArgs_args_def)
next
  case (Inr sv)
  have "vector = vectorOf env pyrightPath (precedes sv v1_1_309) (extraTokens env)"
    using assms unfolding getArgs_args_closed [OF Inr] extraTokens_def
    by (auto split: if_splits sum.splits)
  with Inr show ?thesis by simp
qed

lemma newSemVer_1_1_400:
  "newSemVer ''1.1.400''
     = Inr \<lparr> raw = ''1.1.400'', major = 1, minor = 1, patch = 400, prerelease = [],
             build = [], version = ''1.1.400'' \<rparr>"
  by (simp add: newSemVer_def MAX_LENGTH_def trim_def isWhiteSpace_def matchFull_def
        breakAt_def numericIdentifier_def isDigit_def toNumber_def digitsValue_def
        digitValue_def roundToDouble_def MAX_SAFE_INTEGER_def format_def
        numberToString.simps digitChar_def)

lemma newSemVer_1_1_308:
  "newSemVer ''1.1.308''
     = Inr \<lparr> raw = ''1.1.308'', major = 1, minor = 1, patch = 308, prerelease = [],
             build = [], version = ''1.1.308'' \<rparr>"
  by (simp add: newSemVer_def MAX_LENGTH_def trim_def isWhiteSpace_def matchFull_def
        breakAt_def numericIdentifier_def isDigit_def toNumber_def digitsValue_def
        digitValue_def roundToDouble_def MAX_SAFE_INTEGER_def format_def
        numberToString.simps digitChar_def)

lemma newSemVer_1_1_309_beta:
  "newSemVer ''1.1.309-beta.1''
     = Inr \<lparr> raw = ''1.1.309-beta.1'', major = 1, minor = 1, patch = 309,
             prerelease = [Alphanumeric ''beta'', Numeric 1],
             build = [], version = ''1.1.309-beta.1'' \<rparr>"
  by (simp add: newSemVer_def MAX_LENGTH_def trim_def isWhiteSpace_def matchFull_def
        breakAt_def numericIdentifier_def prereleaseIdentifier_def isLetterDashNumber_def
        isNumeric_def isDigit_def toNumber_def digitsValue_def
        digitValue_def roundToDouble_def MAX_SAFE_INTEGER_def format_def identifierToString_def
        numberToString.simps digitChar_def)

lemmas example_simps =
  exampleEnv_def vectorOf_def optionsBeforeTypeshed_def pathOptions_def optionsAfterVenv_def
  valueFlag_def boolFlag_def isTrue_def equalsIgnoreCase_def toLowerChar_def
  precedes_def v1_1_309_def

text \<open>
  C7. With the version of the registry response parsed as \<open>sv\<close>, the vector that
  \<^verbatim>\<open>getArgs\<close> builds is the entry point \<^verbatim>\<open>path.join(pyrightPath, "package", "index.js")\<close>
  followed by the flags of the options that are present, in the order create-stub,
  dependencies, ignore-external, level, project, python-platform, python-path,
  python-version, skip-unannotated, stats, typeshed-path, venv-path, verbose (as
  \<^verbatim>\<open>--lib\<close>), verify-types, warnings, lib (as \<^verbatim>\<open>--lib\<close>), followed by the tokens of
  extra-args: without extra-args it is returned in this form, with extra-args whose
  parse has only strings as well, and every vector that is returned has this form. With
  verbose and lib both true \<^verbatim>\<open>--lib\<close> occurs at least twice. The vector is a function of
  the inputs, \<^verbatim>\<open>path.join\<close> and \<^verbatim>\<open>parse\<close> only: two environments that agree on them give
  the same result.
\<close>

theorem vector_order:
  assumes "newSemVer infoVersion = Inr sv"
  shows "(getInput env ''extra-args'' = [] \<longrightarrow>
            getArgs_args env infoVersion pyrightPath
              = Inr (vectorOf env pyrightPath (precedes sv v1_1_309) []))
       \<and> (\<forall>entries. getInput env ''extra-args'' \<noteq> []
             \<and> parse env (getInput env ''extra-args'') = Inr entries
             \<and> list_all isToken entries \<longrightarrow>
            getArgs_args env infoVersion pyrightPath
              = Inr (vectorOf env pyrightPath (precedes sv v1_1_309) (tokensOf entries)))
       \<and> (\<forall>vector. getArgs_args env infoVersion pyrightPath = Inr vector \<longrightarrow>
            vector = vectorOf env pyrightPath (precedes sv v1_1_309) (extraTokens env)
            \<and> hd vector = pathJoin env [pyrightPath, ''package'', ''index.js''])
       \<and> (isTrue env ''verbose'' \<and> isTrue env ''lib'' \<longrightarrow>
            2 \<le> count_list (vectorOf env pyrightPath (precedes sv v1_1_309) (extraTokens env))
                   ''--lib'')
       \<and> (\<forall>env'. getInput env' = getInput env \<and> pathJoin env' = pathJoin env
                   \<and> parse env' = parse env \<longrightarrow>
            getArgs_args env' infoVersion pyrightPath
              = getArgs_args env infoVersion pyrightPath)"
proof (intro conjI allI impI)
  assume "getInput env ''extra-args'' = []"
  then show "getArgs_args env infoVersion pyrightPath
              = Inr (vectorOf env pyrightPath (precedes sv v1_1_309) [])"
    by (simp add: getArgs_args_closed [OF assms])
next
  fix entries
  assume "getInput env ''extra-args'' \<noteq> []
             \<and> parse env (getInput env ''extra-args'') = Inr entries
             \<and> list_all isToken entries"
  then show "getArgs_args env infoVersion pyrightPath
              = Inr (vectorOf env pyrightPath (precedes sv v1_1_309) (tokensOf entries))"
    by (simp add: getArgs_args_closed [OF assms])
next
  fix vector
  assume "getArgs_args env infoVersion pyrightPath = Inr vector"
  then show "vector = vectorOf env pyrightPath (precedes sv v1_1_309) (extraTokens env)"
    using getArgs_args_InrD assms by fastforce
  then show "hd vector = pathJoin env [pyrightPath, ''package'', ''index.js'']"
    by (simp add: vectorOf_def)
next
  assume "isTrue env ''verbose'' \<and> isTrue env ''lib''"
  then have "optionsAfterVenv env
      = boolFlag ''--lib'' True
        @ (valueFlag ''--verifytypes'' (getInput env ''verify-types'')
           @ boolFlag ''--warnings'' (isTrue env ''warnings''))
        @ boolFlag ''--lib'' True"
    by (simp add: optionsAfterVenv_def)
  then have "2 \<le> count_list (optionsAfterVenv env) ''--lib''"
    by (simp add: boolFlag_def)
  then show "2 \<le> count_list (vectorOf env pyrightPath (precedes sv v1_1_309)
                               (extraTokens env)) ''--lib''"
    by (simp add: vectorOf_def)
next
  fix env' :: env
  assume "getInput env' = getInput env \<and> pathJoin env' = pathJoin env
                   \<and> parse env' = parse env"
  then show "getArgs_args env' infoVersion pyrightPath
              = getArgs_args env infoVersion pyrightPath"
    by (simp add: getArgs_args_closed [OF assms] vectorOf_def optionsBeforeTypeshed_def
          pathOptions_def optionsAfterVenv_def isTrue_def split: sum.splits)
qed

theorem vector_order_witness:
  "getArgs_args
     (exampleEnv [(''verbose'', ''TRUE''), (''lib'', ''true''), (''level'', ''warning''),
                  (''create-stub'', ''numpy''), (''stats'', ''false''),
                  (''venv-path'', ''.venv''), (''extra-args'', ''--outputjson src'')])
     ''1.1.400'' ''/cache''
   = Inr [''/cache/package/index.js'', ''--createstub'', ''numpy'', ''--level'', ''warning'',
          ''--venvpath'', ''.venv'', ''--lib'', ''--lib'', ''--outputjson'', ''src'']"
  using vector_order [OF newSemVer_1_1_400,
      of "exampleEnv [(''verbose'', ''TRUE''), (''lib'', ''true''), (''level'', ''warning''),
                  (''create-stub'', ''numpy''), (''stats'', ''false''),
                  (''venv-path'', ''.venv''), (''extra-args'', ''--outputjson src'')]"
         "''/cache''"]
  by (simp add: example_simps isToken_def)

text \<open>
  C1. With the version of the registry response parsed as \<open>sv\<close>, the flags of
  typeshed-path and venv-path are spelled by comparing \<open>sv\<close> with 1.1.309 in
  semantic-version precedence: \<^verbatim>\<open>compare\<close> gives -1 exactly when \<open>sv\<close> precedes 1.1.309,
  that is when its numbers are below (1, 1, 309) or are (1, 1, 309) with a prerelease.
  In every vector that is returned the two options stand, after the options before them,
  as \<^verbatim>\<open>--typeshed-path\<close> and \<^verbatim>\<open>--venv-path\<close> with their values when \<open>sv\<close> precedes 1.1.309,
  and as \<^verbatim>\<open>--typeshedpath\<close> and \<^verbatim>\<open>--venvpath\<close> otherwise, which includes 1.1.309 itself;
  without extra-args this vector is returned.
\<close>

theorem flag_spelling:
  assumes "newSemVer infoVersion = Inr sv"
  shows "(\<exists>c. compare sv ''1.1.309'' = Inr c \<and> (c = - 1 \<longleftrightarrow> precedes sv v1_1_309))
       \<and> (precedes sv v1_1_309 \<longleftrightarrow>
            major sv < 1 \<or> (major sv = 1 \<and> minor sv < 1)
            \<or> (major sv = 1 \<and> minor sv = 1 \<and> patch sv < 309)
            \<or> (major sv = 1 \<and> minor sv = 1 \<and> patch sv = 309 \<and> prerelease sv \<noteq> []))
       \<and> (\<forall>vector. getArgs_args env infoVersion pyrightPath = Inr vector \<longrightarrow>
            vector =
              [pathJoin env [pyrightPath, ''package'', ''index.js'']]
              @ optionsBeforeTypeshed env
              @ (if getInput env ''typeshed-path'' \<noteq> []
                 then [if precedes sv v1_1_309 then ''--typeshed-path'' else ''--typeshedpath'',
                       getInput env ''typeshed-path'']
                 else [])
              @ (if getInput env ''venv-path'' \<noteq> []
                 then [if precedes sv v1_1_309 then ''--venv-path'' else ''--venvpath'',
                       getInput env ''venv-path'']
                 else [])
              @ optionsAfterVenv env
              @ extraTokens env)
       \<and> (getInput env ''extra-args'' = [] \<longrightarrow>
            (\<exists>vector. getArgs_args env infoVersion pyrightPath = Inr vector))"
proof (intro conjI allI impI)
  show "\<exists>c. compare sv ''1.1.309'' = Inr c \<and> (c = - 1 \<longleftrightarrow> precedes sv v1_1_309)"
    by (rule compare_1_1_309 [OF newSemVer_version [OF assms]])
next
  show "precedes sv v1_1_309 \<longleftrightarrow>
            major sv < 1 \<or> (major sv = 1 \<and> minor sv < 1)
            \<or> (major sv = 1 \<and> minor sv = 1 \<and> patch sv < 309)
            \<or> (major sv = 1 \<and> minor sv = 1 \<and> patch sv = 309 \<and> prerelease sv \<noteq> [])"
    by (auto simp add: precedes_def v1_1_309_def)
next
  fix vector
  assume "getArgs_args env infoVersion pyrightPath = Inr vector"
  then have "vector = vectorOf env pyrightPath (precedes sv v1_1_309) (extraTokens env)"
    using getArgs_args_InrD assms by fastforce
  then show "vector =
              [pathJoin env [pyrightPath, ''package'', ''index.js'']]
              @ optionsBeforeTypeshed env
              @ (if getInput env ''typeshed-path'' \<noteq> []
                 then [if precedes sv v1_1_309 then ''--typeshed-path'' else ''--typeshedpath'',
                       getInput env ''typeshed-path'']
                 else [])
              @ (if getInput env ''venv-path'' \<noteq> []
                 then [if precedes sv v1_1_309 then ''--venv-path'' else ''--venvpath'',
                       getInput env ''venv-path'']
                 else [])
              @ optionsAfterVenv env
              @ extraTokens env"
    by (simp add: vectorOf_def pathOptions_def valueFlag_def)
next
  assume "getInput env ''extra-args'' = []"
  then show "\<exists>vector. getArgs_args env infoVersion pyrightPath = Inr vector"
    by (simp add: getArgs_args_closed [OF assms])
qed

theorem flag_spelling_witness:
  "getArgs_args (exampleEnv [(''typeshed-path'', ''ts''), (''venv-path'', ''.venv'')])
     ''1.1.308'' ''/cache''
     = Inr [''/cache/package/index.js'', ''--typeshed-path'', ''ts'', ''--venv-path'', ''.venv'']
   \<and> getArgs_args (exampleEnv [(''typeshed-path'', ''ts''), (''venv-path'', ''.venv'')])
     ''1.1.309-beta.1'' ''/cache''
     = Inr [''/cache/package/index.js'', ''--typeshed-path'', ''ts'', ''--venv-path'', ''.venv'']
   \<and> getArgs_args (exampleEnv [(''typeshed-path'', ''ts''), (''venv-path'', ''.venv'')])
     ''1.1.309'' ''/cache''
     = Inr [''/cache/package/index.js'', ''--typeshedpath'', ''ts'', ''--venvpath'', ''.venv'']
   \<and> getArgs_args (exampleEnv [(''typeshed-path'', ''ts''), (''venv-path'', ''.venv'')])
     ''1.1.400'' ''/cache''
     = Inr [''/cache/package/index.js'', ''--typeshedpath'', ''ts'', ''--venvpath'', ''.venv'']"
  using flag_spelling [OF newSemVer_1_1_308,
      of "exampleEnv [(''typeshed-path'', ''ts''), (''venv-path'', ''.venv'')]" "''/cache''"]
    flag_spelling [OF newSemVer_1_1_309_beta,
      of "exampleEnv [(''typeshed-path'', ''ts''), (''venv-path'', ''.venv'')]" "''/cache''"]
    flag_spelling [OF newSemVer_1_1_309,
      of "exampleEnv [(''typeshed-path'', ''ts''), (''venv-path'', ''.venv'')]" "''/cache''"]
    flag_spelling [OF newSemVer_1_1_400,
      of "exampleEnv [(''typeshed-path'', ''ts''), (''venv-path'', ''.venv'')]" "''/cache''"]
  by (simp add: getArgs_args_closed [OF newSemVer_1_1_308]
        getArgs_args_closed [OF newSemVer_1_1_309_beta]
        getArgs_args_closed [OF newSemVer_1_1_309]
        getArgs_args_closed [OF newSemVer_1_1_400] example_simps)





subsection \<open>Splitting and joining\<close>

lemma split_not_Nil: "split sep s \<noteq> []"
  by (induction s) (auto split: list.splits)






lemma split_pieces: "x \<in> set (split sep s) \<Longrightarrow> sep \<notin> set x"
proof (induction s arbitrary: x)
  case Nil
  then show ?case by simp
next
  case (Cons c s)
  obtain w ws where w: "split sep s = w # ws"
    using split_not_Nil by (cases "split sep s") auto
  show ?case
    using Cons w by (auto split: if_splits)
qed






subsection \<open>Decimal numerals\<close>

lemma roundToDouble_small: "n < 2 ^ 53 \<Longrightarrow> roundToDouble n = n"
  by (simp add: roundToDouble_def)

lemma roundToDouble_large:
  assumes "2 ^ 53 \<le> n"
  shows "2 ^ 53 \<le> roundToDouble n"
proof -
  define k where "k = floorlog 2 n"
  define e where "e = k - 53"
  have pos: "0 < n" using assms by (simp add: less_le_trans [OF _ assms])
  have lo: "2 ^ (k - 1) \<le> n" and hi: "n < 2 ^ k"
    using floorlog_bounds [of n 2] pos by (simp_all add: k_def)
  have k: "53 < k"
  proof (rule ccontr)
    assume "\<not> 53 < k"
    then have "k \<le> 53" by simp
    then have "(2::nat) ^ k \<le> 2 ^ 53"
      by (intro power_increasing) auto
    with hi assms show False by linarith
  qed
  then have k1: "k - 1 = 52 + e" by (simp add: e_def)
  have p: "(2::nat) ^ (k - 1) = 2 ^ 52 * 2 ^ e"
    by (simp only: k1 power_add)
  have "(2::nat) ^ 52 * 2 ^ e \<le> n"
    using lo unfolding p .
  then have q: "2 ^ 52 \<le> n div 2 ^ e"
    by (simp add: less_eq_div_iff_mult_less_eq)
  have "(2::nat) ^ 53 \<le> 2 ^ (k - 1)"
    using k by (intro power_increasing) auto
  also have "\<dots> = 2 ^ 52 * 2 ^ e"
    by (rule p)
  also have "\<dots> \<le> (n div 2 ^ e) * 2 ^ e"
    using q by (rule mult_le_mono1)
  finally have base: "(2::nat) ^ 53 \<le> (n div 2 ^ e) * 2 ^ e" .
  moreover have "(n div 2 ^ e) * 2 ^ e \<le> (n div 2 ^ e + 1) * 2 ^ e"
    by simp
  ultimately have "(2::nat) ^ 53 \<le> (n div 2 ^ e + 1) * 2 ^ e"
    by (rule le_trans)
  with base show ?thesis
    using assms unfolding roundToDouble_def Let_def e_def k_def by simp
qed

lemma toNumber_safe:
  "toNumber s \<le> MAX_SAFE_INTEGER \<longleftrightarrow> digitsValue s \<le> MAX_SAFE_INTEGER"
  "toNumber s \<le> MAX_SAFE_INTEGER \<Longrightarrow> toNumber s = digitsValue s"
  "toNumber s < MAX_SAFE_INTEGER \<longleftrightarrow> digitsValue s < MAX_SAFE_INTEGER"
proof -
  have max: "MAX_SAFE_INTEGER < 2 ^ 53"
    by (simp add: MAX_SAFE_INTEGER_def)
  consider "digitsValue s < 2 ^ 53" | "2 ^ 53 \<le> digitsValue s"
    by linarith
  then have "(digitsValue s < 2 ^ 53 \<and> toNumber s = digitsValue s)
             \<or> (2 ^ 53 \<le> digitsValue s \<and> 2 ^ 53 \<le> toNumber s)"
    unfolding toNumber_def using roundToDouble_small roundToDouble_large by metis
  then show "toNumber s \<le> MAX_SAFE_INTEGER \<longleftrightarrow> digitsValue s \<le> MAX_SAFE_INTEGER"
    and "toNumber s \<le> MAX_SAFE_INTEGER \<Longrightarrow> toNumber s = digitsValue s"
    and "toNumber s < MAX_SAFE_INTEGER \<longleftrightarrow> digitsValue s < MAX_SAFE_INTEGER"
    using max by auto
qed

lemma digitChar_digitValue: "isDigit c \<Longrightarrow> digitChar (digitValue c) = c \<and> digitValue c < 10"
  by (auto simp: isDigit_def digitChar_def digitValue_def)

lemma digitValue_zero: "isDigit c \<Longrightarrow> digitValue c = 0 \<longleftrightarrow> c = CHR ''0''"
  by (auto simp: isDigit_def digitValue_def)

lemma numberToString_snoc:
  assumes "0 < n" and "d < 10"
  shows "numberToString (10 * n + d) = numberToString n @ [digitChar d]"
  using assms by (subst numberToString.simps) simp

lemma digitsValue_pos:
  assumes "list_all isDigit s" and "s \<noteq> []" and "hd s \<noteq> CHR ''0''"
  shows "0 < digitsValue s"
  using assms
proof (induction s rule: rev_induct)
  case Nil
  then show ?case by simp
next
  case (snoc c s)
  show ?case
  proof (cases "s = []")
    case True
    then have "digitValue c \<noteq> 0"
      using snoc.prems by (simp add: digitValue_zero)
    then show ?thesis
      using True by (simp add: digitsValue_def)
  next
    case False
    then have "0 < digitsValue s"
      using snoc by simp
    then show ?thesis
      by (simp add: digitsValue_snoc)
  qed
qed

lemma numberToString_digitsValue:
  assumes "numericIdentifier s"
  shows "numberToString (digitsValue s) = s"
proof (cases "s = ''0''")
  case True
  then show ?thesis
    by (simp add: digitsValue_def digitValue_def numberToString_digit digitChar_def)
next
  case False
  then have d: "list_all isDigit s" and ne: "s \<noteq> []" and h: "hd s \<noteq> CHR ''0''"
    using assms by (auto simp: numericIdentifier_def split: list.splits if_splits)
  from d ne h show ?thesis
  proof (induction s rule: rev_induct)
    case Nil
    then show ?case by simp
  next
    case (snoc c s)
    have c: "isDigit c" using snoc.prems by simp
    show ?case
    proof (cases "s = []")
      case True
      then show ?thesis
        using c digitChar_digitValue [OF c]
        by (simp add: digitsValue_def numberToString_digit)
    next
      case False
      then have "numberToString (digitsValue s) = s" and "0 < digitsValue s"
        using snoc digitsValue_pos [of s] by simp_all
      then show ?thesis
        using digitChar_digitValue [OF c]
        by (simp add: digitsValue_snoc numberToString_snoc)
    qed
  qed
qed


subsection \<open>The constructor and the grammar of versions\<close>






lemma identifier_roundtrip:
  assumes "prereleaseIdentifier s"
  shows "identifierToString
           (if isNumeric s \<and> toNumber s < MAX_SAFE_INTEGER
            then Numeric (toNumber s) else Alphanumeric s) = s"
proof (cases "isNumeric s \<and> toNumber s < MAX_SAFE_INTEGER")
  case True
  then have "numericIdentifier s"
    using assms by (simp add: isNumeric_def prereleaseIdentifier_def)
  moreover have "toNumber s = digitsValue s"
    using True toNumber_safe(2) [of s] by simp
  ultimately show ?thesis
    using True by (simp add: identifierToString_def numberToString_digitsValue)
next
  case False
  then show ?thesis
    by (auto simp add: identifierToString_def)
qed


lemma identifiers_roundtrip:
  assumes "list_all prereleaseIdentifier pre"
  shows "map identifierToString
           (map (\<lambda>id. if isNumeric id \<and> toNumber id < MAX_SAFE_INTEGER
                      then Numeric (toNumber id) else Alphanumeric id) pre) = pre"
  using assms by (induction pre) (simp_all add: identifier_roundtrip)











subsection \<open>Version resolution\<close>







subsection \<open>The verbose option\<close>

lemma verbose_valueFlag:
  "''--verbose'' \<in> set (valueFlag flag v) \<longleftrightarrow> (flag = ''--verbose'' \<and> v \<noteq> []) \<or> v = ''--verbose''"
  by (auto simp add: valueFlag_def)

lemma verbose_boolFlag:
  "''--verbose'' \<in> set (boolFlag flag b) \<longleftrightarrow> flag = ''--verbose'' \<and> b"
  by (auto simp add: boolFlag_def)

lemma verbose_before:
  "''--verbose'' \<in> set (optionsBeforeTypeshed env) \<longleftrightarrow>
     getInput env ''create-stub'' = ''--verbose'' \<or> getInput env ''dependencies'' = ''--verbose''
     \<or> getInput env ''level'' = ''--verbose'' \<or> getInput env ''project'' = ''--verbose''
     \<or> getInput env ''python-platform'' = ''--verbose''
     \<or> getInput env ''python-path'' = ''--verbose''
     \<or> getInput env ''python-version'' = ''--verbose''"
  by (simp add: optionsBeforeTypeshed_def verbose_valueFlag verbose_boolFlag)

lemma verbose_path:
  "''--verbose'' \<in> set (pathOptions env dashed) \<longleftrightarrow>
     getInput env ''typeshed-path'' = ''--verbose'' \<or> getInput env ''venv-path'' = ''--verbose''"
  by (simp add: pathOptions_def verbose_valueFlag)

lemma verbose_after:
  "''--verbose'' \<in> set (optionsAfterVenv env) \<longleftrightarrow> getInput env ''verify-types'' = ''--verbose''"
  by (simp add: optionsAfterVenv_def verbose_valueFlag verbose_boolFlag)

lemma verbose_in_vectorOf:
  "''--verbose'' \<in> set (vectorOf env pyrightPath dashed tokens) \<longleftrightarrow>
     pathJoin env [pyrightPath, ''package'', ''index.js''] = ''--verbose''
     \<or> (\<exists>name\<in>set valueOptions. getInput env name = ''--verbose'')
     \<or> ''--verbose'' \<in> set tokens"
proof -
  have "(\<exists>name\<in>set valueOptions. getInput env name = ''--verbose'') \<longleftrightarrow>
     ''--verbose'' \<in> set (optionsBeforeTypeshed env) \<or> ''--verbose'' \<in> set (pathOptions env dashed)
     \<or> ''--verbose'' \<in> set (optionsAfterVenv env)"
    unfolding verbose_before verbose_path verbose_after
    by (simp add: valueOptions_def disj_ac)
  then show ?thesis
    unfolding vectorOf_def by (simp add: eq_commute [of "''--verbose''"] disj_ac)
qed

lemma lib_in_vectorOf:
  "isTrue env ''verbose'' \<Longrightarrow> ''--lib'' \<in> set (vectorOf env pyrightPath dashed tokens)"
  by (simp add: vectorOf_def optionsAfterVenv_def boolFlag_def)

lemma vectorOf_verbose_alone:
  assumes "\<forall>name. name \<noteq> ''verbose'' \<longrightarrow> getInput env name = []"
    and "isTrue env ''verbose''"
  shows "vectorOf env pyrightPath dashed (extraTokens env)
           = [pathJoin env [pyrightPath, ''package'', ''index.js''], ''--lib'']"
  using assms
  by (simp add: vectorOf_def optionsBeforeTypeshed_def pathOptions_def optionsAfterVenv_def
        valueFlag_def boolFlag_def extraTokens_def isTrue_def equalsIgnoreCase_def)

lemma annotate_verbose_alone:
  assumes "\<forall>name. name \<noteq> ''verbose'' \<longrightarrow> getInput env name = []"
    and "entry \<notin> flagsWithoutCommentingSupport"
  shows "getArgs_annotate env [entry, ''--lib''] = Inr {''error'', ''warning''}"
proof -
  have "getInput env ''annotate'' = []" and "getInput env ''no-comments'' = []"
    using assms(1) by simp_all
  moreover have "''--lib'' \<notin> flagsWithoutCommentingSupport"
    by (simp add: flagsWithoutCommentingSupport_def)
  ultimately show ?thesis
    using assms(2)
    by (simp add: getArgs_annotate_tokens annotateTokens_def trim_def isAnnotate_words
          annotateLoop_all noComments_def getBooleanInput_def
          del: split.simps annotateLoop.simps)
qed

text \<open>
  C10, as amended. In every vector that is returned when the verbose option is true,
  \<^verbatim>\<open>--lib\<close> occurs, and \<^verbatim>\<open>--verbose\<close> occurs exactly when it is the entry point, the value
  of one of the options whose value is put into the vector (create-stub, dependencies,
  level, project, python-platform, python-path, python-version, typeshed-path, venv-path,
  verify-types) or a token of extra-args: when none of them is \<^verbatim>\<open>--verbose\<close> the vector
  does not hold it, although the option is true. When verbose is the only input that is
  set and the entry point is none of the five flags, the vector is the entry point and
  \<^verbatim>\<open>--lib\<close>, and the annotation set is {error, warning}: the override is not applied.
\<close>

theorem verbose_is_lib:
  assumes "getArgs_args env infoVersion pyrightPath = Inr vector"
    and "isTrue env ''verbose''"
  shows "''--lib'' \<in> set vector
       \<and> (''--verbose'' \<in> set vector \<longleftrightarrow>
            pathJoin env [pyrightPath, ''package'', ''index.js''] = ''--verbose''
            \<or> (\<exists>name\<in>set valueOptions. getInput env name = ''--verbose'')
            \<or> ''--verbose'' \<in> set (extraTokens env))
       \<and> (pathJoin env [pyrightPath, ''package'', ''index.js''] \<noteq> ''--verbose''
            \<and> (\<forall>name\<in>set valueOptions. getInput env name \<noteq> ''--verbose'')
            \<and> ''--verbose'' \<notin> set (extraTokens env)
          \<longrightarrow> ''--verbose'' \<notin> set vector)
       \<and> ((\<forall>name. name \<noteq> ''verbose'' \<longrightarrow> getInput env name = [])
            \<and> pathJoin env [pyrightPath, ''package'', ''index.js'']
                 \<notin> flagsWithoutCommentingSupport
          \<longrightarrow> vector = [pathJoin env [pyrightPath, ''package'', ''index.js''], ''--lib'']
              \<and> getArgs_annotate env vector = Inr {''error'', ''warning''})"
proof -
  obtain sv where vector:
    "vector = vectorOf env pyrightPath (precedes sv v1_1_309) (extraTokens env)"
    using getArgs_args_InrD [OF assms(1)] by blast
  have lib: "''--lib'' \<in> set vector"
    unfolding vector using assms(2) by (rule lib_in_vectorOf)
  have iff: "''--verbose'' \<in> set vector \<longleftrightarrow>
            pathJoin env [pyrightPath, ''package'', ''index.js''] = ''--verbose''
            \<or> (\<exists>name\<in>set valueOptions. getInput env name = ''--verbose'')
            \<or> ''--verbose'' \<in> set (extraTokens env)"
    unfolding vector by (rule verbose_in_vectorOf)
  have alone: "vector = [pathJoin env [pyrightPath, ''package'', ''index.js''], ''--lib'']
              \<and> getArgs_annotate env vector = Inr {''error'', ''warning''}"
    if only: "\<forall>name. name \<noteq> ''verbose'' \<longrightarrow> getInput env name = []"
      and entry: "pathJoin env [pyrightPath, ''package'', ''index.js'']
                 \<notin> flagsWithoutCommentingSupport"
  proof -
    have v: "vector = [pathJoin env [pyrightPath, ''package'', ''index.js''], ''--lib'']"
      unfolding vector using only assms(2) by (rule vectorOf_verbose_alone)
    show ?thesis
      using v annotate_verbose_alone [OF only entry] by simp
  qed
  show ?thesis
    using lib iff alone by blast
qed

theorem verbose_is_lib_witness:
  "getArgs_args (exampleEnv [(''verbose'', ''true'')]) ''1.1.400'' ''/cache''
     = Inr [''/cache/package/index.js'', ''--lib'']
   \<and> getArgs_annotate (exampleEnv [(''verbose'', ''true'')]) [''/cache/package/index.js'', ''--lib'']
     = Inr {''error'', ''warning''}"
  using verbose_is_lib
    [of "exampleEnv [(''verbose'', ''true'')]" "''1.1.400''" "''/cache''"
        "[''/cache/package/index.js'', ''--lib'']"]
  by (simp add: getArgs_args_closed [OF newSemVer_1_1_400] example_simps
        flagsWithoutCommentingSupport_def)

text \<open>
  The claim C10 as stated fails: with verbose true, level set to \<^verbatim>\<open>--verbose\<close> and no
  extra-args, the vector holds \<^verbatim>\<open>--verbose\<close> and the annotations are suppressed.
\<close>

theorem verbose_is_lib_counterexample:
  "isTrue (exampleEnv [(''verbose'', ''true''), (''level'', ''--verbose'')]) ''verbose''
   \<and> extraTokens (exampleEnv [(''verbose'', ''true''), (''level'', ''--verbose'')]) = []
   \<and> getArgs (exampleEnv [(''verbose'', ''true''), (''level'', ''--verbose'')])
     = (Inr \<lparr> workingDirectory = [], annotate = {}, pyrightVersion = ''1.1.400'',
               args = [''/opt/hostedtoolcache/pyright/1.1.400/x64/package/index.js'',
                       ''--level'', ''--verbose'', ''--lib''] \<rparr>,
        [HttpGet ''https://registry.npmjs.org/pyright/latest''])"
  by (simp add: getArgs_def andThen_def getPyrightInfo_def getPyrightVersion_def call_def
        downloadPyright_def HttpCodes_OK_def pyrightToolName_def
        getArgs_args_closed [OF newSemVer_1_1_400] example_simps extraTokens_def
        getArgs_annotate_def trim_def isAnnotateNone_def isAnnotateAll_def toUpperCase_def
        toUpperChar_def getBooleanInput_def flagsWithoutCommentingSupport_def isWhiteSpace_def)

end
